theory Spec2Isabelle
  imports Main
begin

section \<open>The parsed HTML tree and its read-only adapter\<close>

text \<open>
  The deserializer never touches the HTML tree directly: it goes through the methods of
  a parse result (\<open>getChildNodes\<close>, \<open>isTextNode\<close>, \<open>isElementNode\<close>,
  \<open>getNodeElementName\<close>, \<open>getAttributeValue\<close>, \<open>getNodeText\<close>) and reads
  \<open>textContent\<close> of one node. A node is a text node with its literal text, an element
  with its (upper-case) tag name, its attributes in document order and its children, or
  a node that is neither (a comment of a DOM tree, with its data).

  A \<open>string\<close> is a JavaScript string whose code units are below 256, one \<open>char\<close> per
  code unit. A value that may be \<open>null\<close> or \<open>undefined\<close> is an \<open>option\<close>.
\<close>

datatype node =
    TextNode string
  | ElementNode string "(string \<times> string) list" "node list"
  | OtherNode string

fun getChildNodes :: "node \<Rightarrow> node list" where
  "getChildNodes (TextNode t) = []"
| "getChildNodes (ElementNode tag attrs children) = children"
| "getChildNodes (OtherNode d) = []"

fun isTextNode :: "node \<Rightarrow> bool" where
  "isTextNode (TextNode t) = True"
| "isTextNode (ElementNode tag attrs children) = False"
| "isTextNode (OtherNode d) = False"

fun isElementNode :: "node \<Rightarrow> bool" where
  "isElementNode (TextNode t) = False"
| "isElementNode (ElementNode tag attrs children) = True"
| "isElementNode (OtherNode d) = False"

fun getNodeElementName :: "node \<Rightarrow> string option" where
  "getNodeElementName (TextNode t) = None"
| "getNodeElementName (ElementNode tag attrs children) = Some tag"
| "getNodeElementName (OtherNode d) = None"

fun getAttributeValue :: "node \<Rightarrow> string \<Rightarrow> string option" where
  "getAttributeValue (TextNode t) attr = None"
| "getAttributeValue (ElementNode tag attrs children) attr = map_of attrs attr"
| "getAttributeValue (OtherNode d) attr = None"

fun getNodeText :: "node \<Rightarrow> string" where
  "getNodeText (TextNode t) = t"
| "getNodeText (ElementNode tag attrs children) = []"
| "getNodeText (OtherNode d) = []"

text \<open>
  Modelled from the spec: \<open>textContent\<close> is a property of the tree's own nodes, which
  are not among the sources. The spec has it as the element's full literal text content,
  nested markup flattened: the texts of the text nodes below the node, in document order.
\<close>

fun textContent :: "node \<Rightarrow> string" where
  "textContent (TextNode t) = t"
| "textContent (ElementNode tag attrs children) = concat (map textContent children)"
| "textContent (OtherNode d) = []"

section \<open>JavaScript primitives the deserializer uses\<close>

text \<open>A string is truthy when it is present and not empty.\<close>

fun truthy :: "string option \<Rightarrow> bool" where
  "truthy None = False"
| "truthy (Some s) = (s \<noteq> [])"

text \<open>\<open>value || ""\<close> on an optional string.\<close>

fun orEmpty :: "string option \<Rightarrow> string" where
  "orEmpty None = []"
| "orEmpty (Some s) = s"

definition startsWith :: "string \<Rightarrow> string \<Rightarrow> bool" where
  "startsWith s p = (take (length p) s = p)"

definition substring :: "string \<Rightarrow> nat \<Rightarrow> string" where
  "substring s n = drop n s"

text \<open>\<open>s.split(" ")\<close>: the pieces between single spaces, empty pieces kept.\<close>

fun split_space :: "string \<Rightarrow> string list" where
  "split_space [] = [[]]"
| "split_space (c # cs) =
     (if c = CHR '' '' then [] # split_space cs
      else (case split_space cs of
              [] \<Rightarrow> [[c]]
            | piece # pieces \<Rightarrow> (c # piece) # pieces))"

text \<open>\<open>s[i]\<close>: the one-character string at index \<open>i\<close>, \<open>undefined\<close> out of range.\<close>

definition charAt :: "string \<Rightarrow> nat \<Rightarrow> string option" where
  "charAt s i = (if i < length s then Some [s ! i] else None)"

text \<open>
  A JavaScript number as \<open>parseInt\<close> can return it: \<open>NaN\<close>, an integer that a double
  holds exactly, or \<open>Imprecise i\<close> for a digit string whose value \<open>i\<close> is beyond
  \<open>2^53\<close> in size, where the number is the double next to \<open>i\<close> or an infinity, not
  \<open>i\<close> itself (and truthy in either case).
\<close>

datatype number = NaN | Integer int | Imprecise int

fun truthyNumber :: "number \<Rightarrow> bool" where
  "truthyNumber NaN = False"
| "truthyNumber (Integer i) = (i \<noteq> 0)"
| "truthyNumber (Imprecise i) = True"

definition isStrWhiteSpaceChar :: "char \<Rightarrow> bool" where
  "isStrWhiteSpaceChar c =
     (c \<in> set [CHR 0x09, CHR 0x0A, CHR 0x0B, CHR 0x0C, CHR 0x0D, CHR 0x20, CHR 0xA0])"

definition digitValue :: "char \<Rightarrow> nat option" where
  "digitValue c =
     (let n = (of_char c :: nat) in
      if 48 \<le> n \<and> n \<le> 57 then Some (n - 48)
      else if 97 \<le> n \<and> n \<le> 122 then Some (n - 87)
      else if 65 \<le> n \<and> n \<le> 90 then Some (n - 55)
      else None)"

definition isRadixDigit :: "nat \<Rightarrow> char \<Rightarrow> bool" where
  "isRadixDigit R c = (case digitValue c of None \<Rightarrow> False | Some d \<Rightarrow> d < R)"

definition mathInt :: "nat \<Rightarrow> string \<Rightarrow> int" where
  "mathInt R Z = foldl (\<lambda>a c. a * int R + int (case digitValue c of None \<Rightarrow> 0 | Some d \<Rightarrow> d)) 0 Z"

text \<open>\<open>ToString\<close> of an optional string: \<open>undefined\<close> prints as its name.\<close>

fun ToString :: "string option \<Rightarrow> string" where
  "ToString None = ''undefined''"
| "ToString (Some s) = s"

text \<open>
  \<open>parseInt(input)\<close> with no radix, after ECMAScript: leading white space is skipped, a
  sign is read, a \<open>0x\<close> or \<open>0X\<close> prefix selects radix 16 (radix 10 otherwise), and the
  longest run of digits of that radix is the value; no digit gives \<open>NaN\<close>.
\<close>

definition parseInt :: "string option \<Rightarrow> number" where
  "parseInt input =
     (let inputString = ToString input;
          S = dropWhile isStrWhiteSpaceChar inputString;
          sign = (if startsWith S ''-'' then - 1 else 1 :: int);
          S' = (if startsWith S ''+'' \<or> startsWith S ''-'' then substring S 1 else S);
          hex = (startsWith S' ''0x'' \<or> startsWith S' ''0X'');
          R = (if hex then 16 else 10 :: nat);
          S'' = (if hex then substring S' 2 else S');
          Z = takeWhile (isRadixDigit R) S''
      in if Z = [] then NaN
         else if mathInt R Z \<le> 2 ^ 53 then Integer (sign * mathInt R Z)
         else Imprecise (sign * mathInt R Z))"

section \<open>The document model\<close>

text \<open>
  Modelled from the spec: the classes of the message body (\<open>TextPart\<close>, \<open>FormatPart\<close>,
  \<open>NewLinePart\<close>, \<open>RulePart\<close>, \<open>LinkPart\<close>, \<open>PillPart\<close>, \<open>ImagePart\<close>,
  \<open>HeaderBlock\<close>, \<open>ListBlock\<close>, \<open>CodeBlock\<close>, \<open>MessageBody\<close>) are imported by the
  deserializer from a module that is not among the sources. A part is a value with the
  fields the spec's data model lists, in the order of the constructor's arguments in the
  deserializer; a field that may hold \<open>null\<close> is an \<open>option\<close>.
\<close>

datatype part =
    TextPart string
  | Format string "part list"
  | NewLinePart
  | RulePart
  | LinkPart "string option" "part list"
  | PillPart string string "part list"
  | ImagePart string "number option" "number option" "string option" "string option"
  | HeaderBlock number "part list"
  | ListBlock "number option" "part list list"
  | CodeBlock string string

record messageBody =
  sourceString :: string
  parts :: "part list"

definition MessageBody :: "string \<Rightarrow> part list \<Rightarrow> messageBody" where
  "MessageBody html ps = \<lparr>sourceString = html, parts = ps\<rparr>"

definition toLowerCase :: "string \<Rightarrow> string" where
  "toLowerCase s =
     map (\<lambda>c. let n = (of_char c :: nat) in
               if (65 \<le> n \<and> n \<le> 90) \<or> (192 \<le> n \<and> n \<le> 222 \<and> n \<noteq> 215)
               then char_of (n + 32) else c) s"

text \<open>
  Modelled from the spec: the constructor of \<open>FormatPart\<close> is in the message body's
  module, which is not among the sources. The tree walker's tag names are upper-case,
  the Format part's tag is the lower-case name (\<open>"p"\<close>, \<open>"em"\<close>, \<open>"span"\<close>), as the
  spec's testable properties and the deserializer's own tests have it.
\<close>

definition FormatPart :: "string \<Rightarrow> part list \<Rightarrow> part" where
  "FormatPart format children = Format (toLowerCase format) children"

section \<open>The collaborators\<close>

text \<open>
  The plain-text linkifier, the mention-link recognizer and the media repository are
  outside the deserializer. \<open>linkify\<close> gives the tokens it would hand to its callback,
  in order, each with its \<open>isLink\<close> flag; \<open>parsePillLink\<close> gives \<open>null\<close> or an object
  whose \<open>userId\<close> may be missing; \<open>mxcUrl\<close> gives the resolved URL or nothing.
\<close>

datatype pillData = PillData (userId: "string option")

record env =
  linkify :: "string \<Rightarrow> (string \<times> bool) list"
  parsePillLink :: "string \<Rightarrow> pillData option"
  mxcUrl :: "string \<Rightarrow> string option"

section \<open>The deserializer\<close>

definition basicInline :: "string list" where
  "basicInline = [''EM'', ''STRONG'', ''CODE'', ''DEL'', ''SPAN'']"

definition basicBlock :: "string list" where
  "basicBlock = [''DIV'', ''BLOCKQUOTE'']"

definition parseLink :: "env \<Rightarrow> node \<Rightarrow> part list \<Rightarrow> part" where
  "parseLink e node children =
     (let href = getAttributeValue node ''href'' in
      case href of
        None \<Rightarrow> LinkPart href children
      | Some h \<Rightarrow>
          if h = [] then LinkPart href children
          else (case parsePillLink e h of
                  None \<Rightarrow> LinkPart href children
                | Some pill \<Rightarrow>
                    if truthy (userId pill)
                    then PillPart (orEmpty (userId pill)) h children
                    else LinkPart href children))"

text \<open>The loop over the class names of \<open>parseCodeBlock\<close>, which stops at the first match.\<close>

fun parseCodeBlock_language :: "string list \<Rightarrow> string" where
  "parseCodeBlock_language [] = []"
| "parseCodeBlock_language (clname # rest) =
     (if startsWith clname ''language-'' \<and> \<not> startsWith clname ''language-_''
      then substring clname 9
      else parseCodeBlock_language rest)"

definition parseCodeBlock :: "node \<Rightarrow> part option" where
  "parseCodeBlock node =
     (case getChildNodes node of
        [] \<Rightarrow> None
      | codeNode # others \<Rightarrow>
          if getNodeElementName codeNode \<noteq> Some ''CODE'' then None
          else (let cl = orEmpty (getAttributeValue codeNode ''class'');
                    language = parseCodeBlock_language (split_space cl)
                in Some (CodeBlock language (textContent codeNode))))"

text \<open>\<open>parseInt(value) || fallback\<close>.\<close>

definition parseIntOr :: "string option \<Rightarrow> number option \<Rightarrow> number option" where
  "parseIntOr v fallback = (if truthyNumber (parseInt v) then Some (parseInt v) else fallback)"

definition parseImage :: "env \<Rightarrow> node \<Rightarrow> part option" where
  "parseImage e node =
     (let src = orEmpty (getAttributeValue node ''src'');
          url = mxcUrl e src
      in if \<not> truthy url then None
         else (let width = parseIntOr (getAttributeValue node ''width'') None;
                   height = parseIntOr (getAttributeValue node ''height'') None;
                   alt = getAttributeValue node ''alt'';
                   title = getAttributeValue node ''title''
               in Some (ImagePart (orEmpty url) width height alt title)))"

text \<open>
  \<open>_parseTextParts(node, into)\<close>: whether the node is a text node, and \<open>into\<close> after the
  linkifier's tokens were pushed.
\<close>

definition linkifyCallback :: "part list \<Rightarrow> string \<times> bool \<Rightarrow> part list" where
  "linkifyCallback into token =
     (case token of (text, isLink) \<Rightarrow>
        if isLink then into @ [LinkPart (Some text) [TextPart text]]
        else into @ [TextPart text])"

definition parseTextParts_into :: "env \<Rightarrow> node \<Rightarrow> part list \<Rightarrow> bool \<times> part list" where
  "parseTextParts_into e node into =
     (if \<not> isTextNode node then (False, into)
      else (True, foldl linkifyCallback into (linkify e (getNodeText node))))"

text \<open>
  The traversal in inline context. \<open>_parseInlineNodes(nodes, into)\<close> pushes onto the
  array \<open>into\<close>; here \<open>parseInlineNodes_into\<close> takes the array and returns it as the
  loop leaves it. The recursion is on the children of a node, which are smaller than
  the node.
\<close>

lemma size_getChildNodes [termination_simp]:
  "size_list size (getChildNodes node) \<le> size node"
  by (cases node) simp_all

fun parseInlineElement :: "env \<Rightarrow> node \<Rightarrow> part option"
  and parseInlineNode :: "env \<Rightarrow> node \<Rightarrow> part option"
  and parseInlineNodes_into :: "env \<Rightarrow> node list \<Rightarrow> part list \<Rightarrow> part list"
  and parseInlineNodes :: "env \<Rightarrow> node list \<Rightarrow> part list"
where
  "parseInlineElement e node =
     (let tag = getNodeElementName node;
          children = getChildNodes node
      in if tag = Some ''A'' then Some (parseLink e node (parseInlineNodes e children))
         else if tag = Some ''BR'' then Some NewLinePart
         else (case tag of
                 None \<Rightarrow> None
               | Some t \<Rightarrow>
                   if t \<notin> set basicInline then None
                   else Some (FormatPart t (parseInlineNodes e children))))"
| "parseInlineNode e node =
     (if isElementNode node then parseInlineElement e node else None)"
| "parseInlineNodes_into e [] into = into"
| "parseInlineNodes_into e (htmlNode # nodes) into =
     (case parseTextParts_into e htmlNode into of
        (True, into') \<Rightarrow> parseInlineNodes_into e nodes into'
      | (False, into') \<Rightarrow>
          (case parseInlineNode e htmlNode of
             Some node \<Rightarrow> parseInlineNodes_into e nodes (into' @ [node])
           | None \<Rightarrow>
               parseInlineNodes_into e nodes
                 (parseInlineNodes_into e (getChildNodes htmlNode) into')))"
| "parseInlineNodes e nodes = parseInlineNodes_into e nodes []"

definition headerTags :: "string list" where
  "headerTags = [''H1'', ''H2'', ''H3'', ''H4'', ''H5'', ''H6'']"

text \<open>The \<open>start\<close> of \<open>parseList\<close>: a number for an ordered list only.\<close>

definition parseList_start :: "node \<Rightarrow> number option" where
  "parseList_start node =
     (if getNodeElementName node = Some ''OL''
      then parseIntOr (getAttributeValue node ''start'') (Some (Integer 1))
      else None)"

text \<open>\<open>a || b\<close> on two optional parts: a part is an object, so it is truthy.\<close>

definition orElse :: "part option \<Rightarrow> part option \<Rightarrow> part option" where
  "orElse a b = (case a of Some p \<Rightarrow> Some p | None \<Rightarrow> b)"

text \<open>
  The traversal in mixed context, with the block elements. \<open>parseList_items\<close> is the
  loop of \<open>parseList\<close> over the children, \<open>nodes\<close> the array it pushes the items
  onto; \<open>parseAnyNodes_into\<close> is \<open>_parseAnyNodes(nodes, into)\<close>.
\<close>

function parseList_items :: "env \<Rightarrow> node list \<Rightarrow> part list list \<Rightarrow> part list list"
  and parseList :: "env \<Rightarrow> node \<Rightarrow> part"
  and parseBlockElement :: "env \<Rightarrow> node \<Rightarrow> part option"
  and parseBlockNode :: "env \<Rightarrow> node \<Rightarrow> part option"
  and parseAnyNodes_into :: "env \<Rightarrow> node list \<Rightarrow> part list \<Rightarrow> part list"
  and parseAnyNodes :: "env \<Rightarrow> node list \<Rightarrow> part list"
where
  "parseList_items e [] nodes = nodes"
| "parseList_items e (child # children) nodes =
     (if getNodeElementName child \<noteq> Some ''LI'' then parseList_items e children nodes
      else (let item = parseAnyNodes e (getChildNodes child)
            in parseList_items e children (nodes @ [item])))"
| "parseList e node =
     ListBlock (parseList_start node) (parseList_items e (getChildNodes node) [])"
| "parseBlockElement e node =
     (let tag = getNodeElementName node;
          children = getChildNodes node
      in case tag of
           None \<Rightarrow> None
         | Some t \<Rightarrow>
             if t \<in> set headerTags
             then Some (HeaderBlock (parseInt (charAt t 1)) (parseInlineNodes e children))
             else if t = ''UL'' \<or> t = ''OL'' then Some (parseList e node)
             else if t = ''PRE'' then parseCodeBlock node
             else if t = ''HR'' then Some RulePart
             else if t = ''IMG'' then parseImage e node
             else if t = ''P'' then Some (FormatPart t (parseInlineNodes e children))
             else if t \<notin> set basicBlock then None
             else Some (FormatPart t (parseAnyNodes e children)))"
| "parseBlockNode e node =
     (if isElementNode node then parseBlockElement e node else None)"
| "parseAnyNodes_into e [] into = into"
| "parseAnyNodes_into e (htmlNode # nodes) into =
     (case parseTextParts_into e htmlNode into of
        (True, into') \<Rightarrow> parseAnyNodes_into e nodes into'
      | (False, into') \<Rightarrow>
          (case orElse (parseInlineNode e htmlNode) (parseBlockNode e htmlNode) of
             Some node \<Rightarrow> parseAnyNodes_into e nodes (into' @ [node])
           | None \<Rightarrow>
               parseAnyNodes_into e nodes
                 (parseAnyNodes_into e (getChildNodes htmlNode) into')))"
| "parseAnyNodes e nodes = parseAnyNodes_into e nodes []"
  by pat_completeness auto

termination
  apply (relation "measure (\<lambda>x. case x of
      Inl (Inl (e, children, nodes)) \<Rightarrow> 4 * size_list size children
    | Inl (Inr (Inl (e, node))) \<Rightarrow> 4 * size node + 1
    | Inl (Inr (Inr (e, node))) \<Rightarrow> 4 * size node + 2
    | Inr (Inl (e, node)) \<Rightarrow> 4 * size node + 3
    | Inr (Inr (Inl (e, nodes, into))) \<Rightarrow> 4 * size_list size nodes
    | Inr (Inr (Inr (e, nodes))) \<Rightarrow> 4 * size_list size nodes + 1)")
  apply simp_all
  subgoal for child children using size_getChildNodes [of child] by linarith
  subgoal for node using size_getChildNodes [of node] by linarith
  subgoal for node using size_getChildNodes [of node] by linarith
  subgoal for e htmlNode using size_getChildNodes [of htmlNode] by linarith
  done

text \<open>
  \<open>parseHTMLBody(platform, mediaRepository, html)\<close>; \<open>parseHTML\<close> is the platform's
  parser, giving the root nodes of the tree it parsed.
\<close>

definition parseHTMLBody :: "(string \<Rightarrow> node list) \<Rightarrow> env \<Rightarrow> string \<Rightarrow> messageBody" where
  "parseHTMLBody parseHTML e html =
     (let rootNodes = parseHTML html;
          ps = parseAnyNodes e rootNodes
      in MessageBody html ps)"

section \<open>Calls that do not return\<close>

text \<open>
  The functions above give the value a call returns. A call in JavaScript can also
  raise, and the deserializer has two ways to: the call stack is exhausted
  (\<open>RangeError\<close>), since the traversal recurses once per level of nesting and has no
  bound of its own; and \<open>this.mediaRepository.mxcUrl\<close> is called on a repository that
  is \<open>null\<close> (\<open>TypeError\<close>), which is what the deserializer's tests pass for it. Every
  other value that may be missing is tested before it is used.

  In the functions below \<open>d\<close> is the number of frames the call stack has left for the
  calls the function makes. A call of one of the deserializer's own methods takes one
  frame, and raises \<open>RangeError\<close> when none is left; the calls of the collaborators, of
  the methods of the tree, of constructors and of built-in functions are not counted. A
  loop runs in the frame of its method. \<open>r\<close> is the media repository's \<open>mxcUrl\<close>, or
  \<open>None\<close> for the \<open>null\<close> repository. The methods that call no method of the
  deserializer (\<open>parseLink\<close>, \<open>parseCodeBlock\<close>, \<open>parseImage\<close>, \<open>_parseTextParts\<close>)
  return the values defined above once they have their frame.
\<close>

datatype error = RangeError | TypeError

fun parseInlineElement_run :: "nat \<Rightarrow> env \<Rightarrow> node \<Rightarrow> error + part option"
  and parseInlineNode_run :: "nat \<Rightarrow> env \<Rightarrow> node \<Rightarrow> error + part option"
  and parseInlineNodes_into_run :: "nat \<Rightarrow> env \<Rightarrow> node list \<Rightarrow> part list \<Rightarrow> error + part list"
  and parseInlineNodes_run :: "nat \<Rightarrow> env \<Rightarrow> node list \<Rightarrow> error + part list"
where
  "parseInlineElement_run d e node =
     (let tag = getNodeElementName node;
          children = getChildNodes node
      in if tag = Some ''A''
         then (case d of
                 0 \<Rightarrow> Inl RangeError
               | Suc d' \<Rightarrow>
                   (case parseInlineNodes_run d' e children of
                      Inl err \<Rightarrow> Inl err
                    | Inr inlines \<Rightarrow> Inr (Some (parseLink e node inlines))))
         else if tag = Some ''BR'' then Inr (Some NewLinePart)
         else (case tag of
                 None \<Rightarrow> Inr None
               | Some t \<Rightarrow>
                   if t \<notin> set basicInline then Inr None
                   else (case d of
                           0 \<Rightarrow> Inl RangeError
                         | Suc d' \<Rightarrow>
                             (case parseInlineNodes_run d' e children of
                                Inl err \<Rightarrow> Inl err
                              | Inr inlines \<Rightarrow> Inr (Some (FormatPart t inlines))))))"
| "parseInlineNode_run d e node =
     (if isElementNode node
      then (case d of 0 \<Rightarrow> Inl RangeError | Suc d' \<Rightarrow> parseInlineElement_run d' e node)
      else Inr None)"
| "parseInlineNodes_into_run d e [] into = Inr into"
| "parseInlineNodes_into_run d e (htmlNode # nodes) into =
     (case d of
        0 \<Rightarrow> Inl RangeError
      | Suc d' \<Rightarrow>
          (case parseTextParts_into e htmlNode into of
             (True, into') \<Rightarrow> parseInlineNodes_into_run d e nodes into'
           | (False, into') \<Rightarrow>
               (case parseInlineNode_run d' e htmlNode of
                  Inl err \<Rightarrow> Inl err
                | Inr (Some node) \<Rightarrow> parseInlineNodes_into_run d e nodes (into' @ [node])
                | Inr None \<Rightarrow>
                    (case parseInlineNodes_into_run d' e (getChildNodes htmlNode) into' of
                       Inl err \<Rightarrow> Inl err
                     | Inr into'' \<Rightarrow> parseInlineNodes_into_run d e nodes into''))))"
| "parseInlineNodes_run d e nodes =
     (case d of 0 \<Rightarrow> Inl RangeError | Suc d' \<Rightarrow> parseInlineNodes_into_run d' e nodes [])"


function parseList_items_run ::
    "nat \<Rightarrow> (string \<Rightarrow> string option) option \<Rightarrow> env \<Rightarrow> node list \<Rightarrow> part list list
      \<Rightarrow> error + part list list"
  and parseList_run ::
    "nat \<Rightarrow> (string \<Rightarrow> string option) option \<Rightarrow> env \<Rightarrow> node \<Rightarrow> error + part"
  and parseBlockElement_run ::
    "nat \<Rightarrow> (string \<Rightarrow> string option) option \<Rightarrow> env \<Rightarrow> node \<Rightarrow> error + part option"
  and parseBlockNode_run ::
    "nat \<Rightarrow> (string \<Rightarrow> string option) option \<Rightarrow> env \<Rightarrow> node \<Rightarrow> error + part option"
  and parseAnyNodes_into_run ::
    "nat \<Rightarrow> (string \<Rightarrow> string option) option \<Rightarrow> env \<Rightarrow> node list \<Rightarrow> part list
      \<Rightarrow> error + part list"
  and parseAnyNodes_run ::
    "nat \<Rightarrow> (string \<Rightarrow> string option) option \<Rightarrow> env \<Rightarrow> node list \<Rightarrow> error + part list"
where
  "parseList_items_run d r e [] nodes = Inr nodes"
| "parseList_items_run d r e (child # children) nodes =
     (if getNodeElementName child \<noteq> Some ''LI'' then parseList_items_run d r e children nodes
      else (case d of
              0 \<Rightarrow> Inl RangeError
            | Suc d' \<Rightarrow>
                (case parseAnyNodes_run d' r e (getChildNodes child) of
                   Inl err \<Rightarrow> Inl err
                 | Inr item \<Rightarrow> parseList_items_run d r e children (nodes @ [item]))))"
| "parseList_run d r e node =
     (case parseList_items_run d r e (getChildNodes node) [] of
        Inl err \<Rightarrow> Inl err
      | Inr items \<Rightarrow> Inr (ListBlock (parseList_start node) items))"
| "parseBlockElement_run d r e node =
     (let tag = getNodeElementName node;
          children = getChildNodes node
      in case tag of
           None \<Rightarrow> Inr None
         | Some t \<Rightarrow>
             if t \<in> set headerTags
             then (case d of
                     0 \<Rightarrow> Inl RangeError
                   | Suc d' \<Rightarrow>
                       (case parseInlineNodes_run d' e children of
                          Inl err \<Rightarrow> Inl err
                        | Inr inlines \<Rightarrow>
                            Inr (Some (HeaderBlock (parseInt (charAt t 1)) inlines))))
             else if t = ''UL'' \<or> t = ''OL''
             then (case d of
                     0 \<Rightarrow> Inl RangeError
                   | Suc d' \<Rightarrow>
                       (case parseList_run d' r e node of
                          Inl err \<Rightarrow> Inl err
                        | Inr block \<Rightarrow> Inr (Some block)))
             else if t = ''PRE''
             then (case d of 0 \<Rightarrow> Inl RangeError | Suc d' \<Rightarrow> Inr (parseCodeBlock node))
             else if t = ''HR'' then Inr (Some RulePart)
             else if t = ''IMG''
             then (case d of
                     0 \<Rightarrow> Inl RangeError
                   | Suc d' \<Rightarrow>
                       (case r of
                          None \<Rightarrow> Inl TypeError
                        | Some mxc \<Rightarrow> Inr (parseImage (e\<lparr>mxcUrl := mxc\<rparr>) node)))
             else if t = ''P''
             then (case d of
                     0 \<Rightarrow> Inl RangeError
                   | Suc d' \<Rightarrow>
                       (case parseInlineNodes_run d' e children of
                          Inl err \<Rightarrow> Inl err
                        | Inr inlines \<Rightarrow> Inr (Some (FormatPart t inlines))))
             else if t \<notin> set basicBlock then Inr None
             else (case d of
                     0 \<Rightarrow> Inl RangeError
                   | Suc d' \<Rightarrow>
                       (case parseAnyNodes_run d' r e children of
                          Inl err \<Rightarrow> Inl err
                        | Inr blocks \<Rightarrow> Inr (Some (FormatPart t blocks)))))"
| "parseBlockNode_run d r e node =
     (if isElementNode node
      then (case d of 0 \<Rightarrow> Inl RangeError | Suc d' \<Rightarrow> parseBlockElement_run d' r e node)
      else Inr None)"
| "parseAnyNodes_into_run d r e [] into = Inr into"
| "parseAnyNodes_into_run d r e (htmlNode # nodes) into =
     (case d of
        0 \<Rightarrow> Inl RangeError
      | Suc d' \<Rightarrow>
          (case parseTextParts_into e htmlNode into of
             (True, into') \<Rightarrow> parseAnyNodes_into_run d r e nodes into'
           | (False, into') \<Rightarrow>
               (case parseInlineNode_run d' e htmlNode of
                  Inl err \<Rightarrow> Inl err
                | Inr (Some node) \<Rightarrow> parseAnyNodes_into_run d r e nodes (into' @ [node])
                | Inr None \<Rightarrow>
                    (case parseBlockNode_run d' r e htmlNode of
                       Inl err \<Rightarrow> Inl err
                     | Inr (Some node) \<Rightarrow> parseAnyNodes_into_run d r e nodes (into' @ [node])
                     | Inr None \<Rightarrow>
                         (case parseAnyNodes_into_run d' r e (getChildNodes htmlNode) into' of
                            Inl err \<Rightarrow> Inl err
                          | Inr into'' \<Rightarrow> parseAnyNodes_into_run d r e nodes into'')))))"
| "parseAnyNodes_run d r e nodes =
     (case d of 0 \<Rightarrow> Inl RangeError | Suc d' \<Rightarrow> parseAnyNodes_into_run d' r e nodes [])"
  by pat_completeness auto

termination
  by (relation "measures
      [\<lambda>x. case x of
           Inl (Inl (d, r, e, children, nodes)) \<Rightarrow> d
         | Inl (Inr (Inl (d, r, e, node))) \<Rightarrow> d
         | Inl (Inr (Inr (d, r, e, node))) \<Rightarrow> d
         | Inr (Inl (d, r, e, node)) \<Rightarrow> d
         | Inr (Inr (Inl (d, r, e, nodes, into))) \<Rightarrow> d
         | Inr (Inr (Inr (d, r, e, nodes))) \<Rightarrow> d,
       \<lambda>x. case x of
           Inl (Inl (d, r, e, children, nodes)) \<Rightarrow> length children
         | Inl (Inr (Inl (d, r, e, node))) \<Rightarrow> Suc (length (getChildNodes node))
         | Inl (Inr (Inr (d, r, e, node))) \<Rightarrow> 0
         | Inr (Inl (d, r, e, node)) \<Rightarrow> 0
         | Inr (Inr (Inl (d, r, e, nodes, into))) \<Rightarrow> length nodes
         | Inr (Inr (Inr (d, r, e, nodes))) \<Rightarrow> 0]")
    simp_all

definition parseHTMLBody_run ::
    "nat \<Rightarrow> (string \<Rightarrow> node list) \<Rightarrow> (string \<Rightarrow> string option) option \<Rightarrow> env \<Rightarrow> string
      \<Rightarrow> error + messageBody" where
  "parseHTMLBody_run d parseHTML r e html =
     (let rootNodes = parseHTML html
      in case d of
           0 \<Rightarrow> Inl RangeError
         | Suc d' \<Rightarrow>
             (case parseAnyNodes_run d' r e rootNodes of
                Inl err \<Rightarrow> Inl err
              | Inr ps \<Rightarrow> Inr (MessageBody html ps)))"

declare parseInlineElement.simps [simp del] parseInlineNode.simps [simp del]
  parseInlineNodes.simps [simp del] parseList.simps [simp del]
  parseBlockElement.simps [simp del] parseBlockNode.simps [simp del]
  parseAnyNodes.simps [simp del]

section \<open>Notions used to state the properties\<close>

text \<open>What \<open>_parseTextParts\<close> pushes for a node, starting from an empty list.\<close>

definition textParts :: "env \<Rightarrow> node \<Rightarrow> part list" where
  "textParts e node = foldl linkifyCallback [] (linkify e (getNodeText node))"

text \<open>
  The attribute names the deserializer passes to \<open>getAttributeValue\<close>, and two trees
  that are the same but for the values of attributes with other names: the same nodes in
  the same order, the same tags and texts, the same attribute names, and the same value
  wherever the name is one of the eight.
\<close>

definition allowedAttributes :: "string list" where
  "allowedAttributes =
     [''href'', ''src'', ''width'', ''height'', ''alt'', ''title'', ''class'', ''start'']"

fun sameAttrs :: "(string \<times> string) list \<Rightarrow> (string \<times> string) list \<Rightarrow> bool" where
  "sameAttrs [] [] = True"
| "sameAttrs ((name, v) # attrs) ((name', v') # attrs') =
     (name = name' \<and> (name \<in> set allowedAttributes \<longrightarrow> v = v') \<and> sameAttrs attrs attrs')"
| "sameAttrs _ _ = False"

fun sameNode :: "node \<Rightarrow> node \<Rightarrow> bool"
  and sameNodes :: "node list \<Rightarrow> node list \<Rightarrow> bool"
where
  "sameNode (TextNode t) (TextNode t') = (t = t')"
| "sameNode (ElementNode tag attrs cs) (ElementNode tag' attrs' cs') =
     (tag = tag' \<and> sameAttrs attrs attrs' \<and> sameNodes cs cs')"
| "sameNode (OtherNode d) (OtherNode d') = (d = d')"
| "sameNode _ _ = False"
| "sameNodes [] [] = True"
| "sameNodes (n # ns) (n' # ns') = (sameNode n n' \<and> sameNodes ns ns')"
| "sameNodes _ _ = False"

text \<open>Two nodes on which every function of the deserializer gives the same result.\<close>

definition agree :: "env \<Rightarrow> node \<Rightarrow> node \<Rightarrow> bool" where
  "agree e n n' \<longleftrightarrow>
     isTextNode n = isTextNode n' \<and>
     textParts e n = textParts e n' \<and>
     getNodeElementName n = getNodeElementName n' \<and>
     getAttributeValue n ''class'' = getAttributeValue n' ''class'' \<and>
     textContent n = textContent n' \<and>
     parseInlineNode e n = parseInlineNode e n' \<and>
     parseBlockNode e n = parseBlockNode e n' \<and>
     parseInlineNodes e (getChildNodes n) = parseInlineNodes e (getChildNodes n') \<and>
     parseAnyNodes e (getChildNodes n) = parseAnyNodes e (getChildNodes n')"

text \<open>
  Collaborators for the examples: a linkifier that finds no link, the recognizer of
  \<open>matrix.to\<close> user links, and a media repository that resolves \<open>mxc://\<close> sources.
\<close>

definition exampleEnv :: env where
  "exampleEnv =
     \<lparr>linkify = (\<lambda>text. if text = [] then [] else [(text, False)]),
      parsePillLink = (\<lambda>link.
        if startsWith link ''https://matrix.to/#/@''
        then Some (PillData (Some (substring link 20))) else None),
      mxcUrl = (\<lambda>url.
        if startsWith url ''mxc://''
        then Some (''https://example.org/media/'' @ substring url 6) else None)\<rparr>"

text \<open>
  The nesting of a tree: the greatest number of elements on a path from a root node
  down. \<open>nestedSpans k\<close> is a text inside \<open>k\<close> nested \<open>SPAN\<close> elements.
\<close>

fun nestedSpans :: "nat \<Rightarrow> node" where
  "nestedSpans 0 = TextNode ''x''"
| "nestedSpans (Suc k) = ElementNode ''SPAN'' [] [nestedSpans k]"

fun nesting :: "node \<Rightarrow> nat"
  and nestings :: "node list \<Rightarrow> nat"
where
  "nesting (TextNode t) = 0"
| "nesting (ElementNode tag attrs cs) = Suc (nestings cs)"
| "nesting (OtherNode d) = 0"
| "nestings [] = 0"
| "nestings (n # ns) = max (nesting n) (nestings ns)"

section \<open>The accumulator and the result of a traversal\<close>

lemma linkifyCallback_append:
  "linkifyCallback into token = into @ linkifyCallback [] token"
  by (simp add: linkifyCallback_def split: prod.splits)

lemma foldl_linkifyCallback:
  "foldl linkifyCallback into tokens = into @ foldl linkifyCallback [] tokens"
proof (induction tokens rule: rev_induct)
  case Nil
  show ?case by simp
next
  case (snoc t ts)
  have "foldl linkifyCallback into (ts @ [t]) = linkifyCallback (foldl linkifyCallback into ts) t"
    by simp
  also have "\<dots> = (into @ foldl linkifyCallback [] ts) @ linkifyCallback [] t"
    using snoc.IH linkifyCallback_append [of "foldl linkifyCallback into ts" t] by simp
  also have "\<dots> = into @ foldl linkifyCallback [] (ts @ [t])"
    using linkifyCallback_append [of "foldl linkifyCallback [] ts" t] by simp
  finally show ?case .
qed

lemma parseTextParts_into_append:
  "parseTextParts_into e node into =
     (isTextNode node, into @ snd (parseTextParts_into e node []))"
  using foldl_linkifyCallback [of into "linkify e (getNodeText node)"]
  by (simp add: parseTextParts_into_def)

lemma parseInlineNodes_into_append:
  "parseInlineNodes_into e nodes into = into @ parseInlineNodes_into e nodes []"
proof (induction "size_list size nodes" arbitrary: nodes into rule: less_induct)
  case less
  show ?case
  proof (cases nodes)
    case Nil
    then show ?thesis by simp
  next
    case (Cons htmlNode rest)
    have rest: "parseInlineNodes_into e rest acc = acc @ parseInlineNodes_into e rest []" for acc
      by (rule less) (simp add: Cons)
    have kids: "parseInlineNodes_into e (getChildNodes htmlNode) acc =
        acc @ parseInlineNodes_into e (getChildNodes htmlNode) []" for acc
      by (rule less) (use size_getChildNodes [of htmlNode] in \<open>simp add: Cons\<close>)
    show ?thesis
    proof (cases "isTextNode htmlNode")
      case True
      then show ?thesis
        using rest [of "into @ snd (parseTextParts_into e htmlNode [])"]
          rest [of "snd (parseTextParts_into e htmlNode [])"]
        by (simp add: Cons parseTextParts_into_def foldl_linkifyCallback [of into])
    next
      case False
      show ?thesis
      proof (cases "parseInlineNode e htmlNode")
        case None
        then show ?thesis
          using False kids [of into]
            rest [of "into @ parseInlineNodes_into e (getChildNodes htmlNode) []"]
            rest [of "parseInlineNodes_into e (getChildNodes htmlNode) []"]
          by (simp add: Cons parseTextParts_into_def)
      next
        case (Some p)
        then show ?thesis
          using False rest [of "into @ [p]"] rest [of "[p]"]
          by (simp add: Cons parseTextParts_into_def)
      qed
    qed
  qed
qed

lemma parseAnyNodes_into_append:
  "parseAnyNodes_into e nodes into = into @ parseAnyNodes_into e nodes []"
proof (induction "size_list size nodes" arbitrary: nodes into rule: less_induct)
  case less
  show ?case
  proof (cases nodes)
    case Nil
    then show ?thesis by simp
  next
    case (Cons htmlNode rest)
    have rest: "parseAnyNodes_into e rest acc = acc @ parseAnyNodes_into e rest []" for acc
      by (rule less) (simp add: Cons)
    have kids: "parseAnyNodes_into e (getChildNodes htmlNode) acc =
        acc @ parseAnyNodes_into e (getChildNodes htmlNode) []" for acc
      by (rule less) (use size_getChildNodes [of htmlNode] in \<open>simp add: Cons\<close>)
    show ?thesis
    proof (cases "isTextNode htmlNode")
      case True
      then show ?thesis
        using rest [of "into @ snd (parseTextParts_into e htmlNode [])"]
          rest [of "snd (parseTextParts_into e htmlNode [])"]
        by (simp add: Cons parseTextParts_into_def foldl_linkifyCallback [of into])
    next
      case False
      show ?thesis
      proof (cases "orElse (parseInlineNode e htmlNode) (parseBlockNode e htmlNode)")
        case None
        then show ?thesis
          using False kids [of into]
            rest [of "into @ parseAnyNodes_into e (getChildNodes htmlNode) []"]
            rest [of "parseAnyNodes_into e (getChildNodes htmlNode) []"]
          by (simp add: Cons parseTextParts_into_def)
      next
        case (Some p)
        then show ?thesis
          using False rest [of "into @ [p]"] rest [of "[p]"]
          by (simp add: Cons parseTextParts_into_def)
      qed
    qed
  qed
qed

lemma parseInlineNodes_Nil: "parseInlineNodes e [] = []"
  by (simp add: parseInlineNodes.simps)

lemma parseInlineNodes_Cons:
  "parseInlineNodes e (htmlNode # nodes) =
     (if isTextNode htmlNode then textParts e htmlNode
      else (case parseInlineNode e htmlNode of
              Some node \<Rightarrow> [node]
            | None \<Rightarrow> parseInlineNodes e (getChildNodes htmlNode)))
     @ parseInlineNodes e nodes"
proof -
  have rest: "parseInlineNodes_into e nodes acc = acc @ parseInlineNodes e nodes" for acc
    using parseInlineNodes_into_append [of e nodes acc] by (simp add: parseInlineNodes.simps)
  show ?thesis
    by (simp add: parseInlineNodes.simps [of e "htmlNode # nodes"]
        parseInlineNodes.simps [of e "getChildNodes htmlNode"]
        parseTextParts_into_def textParts_def rest split: option.splits)
qed

lemma parseInlineNodes_append:
  "parseInlineNodes e (xs @ ys) = parseInlineNodes e xs @ parseInlineNodes e ys"
  by (induction xs) (simp_all add: parseInlineNodes_Nil parseInlineNodes_Cons)

lemma parseAnyNodes_Nil: "parseAnyNodes e [] = []"
  by (simp add: parseAnyNodes.simps)

lemma parseAnyNodes_Cons:
  "parseAnyNodes e (htmlNode # nodes) =
     (if isTextNode htmlNode then textParts e htmlNode
      else (case orElse (parseInlineNode e htmlNode) (parseBlockNode e htmlNode) of
              Some node \<Rightarrow> [node]
            | None \<Rightarrow> parseAnyNodes e (getChildNodes htmlNode)))
     @ parseAnyNodes e nodes"
proof -
  have rest: "parseAnyNodes_into e nodes acc = acc @ parseAnyNodes e nodes" for acc
    using parseAnyNodes_into_append [of e nodes acc] by (simp add: parseAnyNodes.simps)
  show ?thesis
    by (simp add: parseAnyNodes.simps [of e "htmlNode # nodes"]
        parseAnyNodes.simps [of e "getChildNodes htmlNode"]
        parseTextParts_into_def textParts_def rest split: option.splits)
qed

lemma parseAnyNodes_append:
  "parseAnyNodes e (xs @ ys) = parseAnyNodes e xs @ parseAnyNodes e ys"
  by (induction xs) (simp_all add: parseAnyNodes_Nil parseAnyNodes_Cons)

lemma parseList_items_append:
  "parseList_items e children nodes =
     nodes @ map (\<lambda>child. parseAnyNodes e (getChildNodes child))
               (filter (\<lambda>child. getNodeElementName child = Some ''LI'') children)"
  by (induction children arbitrary: nodes) simp_all

lemma parseInlineNode_Element:
  "parseInlineNode e (ElementNode tag attrs cs) =
     (if tag = ''A'' then Some (parseLink e (ElementNode tag attrs cs) (parseInlineNodes e cs))
      else if tag = ''BR'' then Some NewLinePart
      else if tag \<notin> set basicInline then None
      else Some (FormatPart tag (parseInlineNodes e cs)))"
  by (simp add: parseInlineNode.simps parseInlineElement.simps)

lemma parseBlockNode_Element:
  "parseBlockNode e (ElementNode tag attrs cs) =
     (if tag \<in> set headerTags
      then Some (HeaderBlock (parseInt (charAt tag 1)) (parseInlineNodes e cs))
      else if tag = ''UL'' \<or> tag = ''OL'' then Some (parseList e (ElementNode tag attrs cs))
      else if tag = ''PRE'' then parseCodeBlock (ElementNode tag attrs cs)
      else if tag = ''HR'' then Some RulePart
      else if tag = ''IMG'' then parseImage e (ElementNode tag attrs cs)
      else if tag = ''P'' then Some (FormatPart tag (parseInlineNodes e cs))
      else if tag \<notin> set basicBlock then None
      else Some (FormatPart tag (parseAnyNodes e cs)))"
  by (simp add: parseBlockNode.simps parseBlockElement.simps)

lemma parseInlineNodes_Element:
  "parseInlineNodes e (before @ ElementNode tag attrs cs # after) =
     parseInlineNodes e before
     @ (case parseInlineNode e (ElementNode tag attrs cs) of
          Some node \<Rightarrow> [node]
        | None \<Rightarrow> parseInlineNodes e cs)
     @ parseInlineNodes e after"
  by (simp add: parseInlineNodes_append parseInlineNodes_Cons split: option.splits)

lemma parseAnyNodes_Element:
  "parseAnyNodes e (before @ ElementNode tag attrs cs # after) =
     parseAnyNodes e before
     @ (case orElse (parseInlineNode e (ElementNode tag attrs cs))
               (parseBlockNode e (ElementNode tag attrs cs)) of
          Some node \<Rightarrow> [node]
        | None \<Rightarrow> parseAnyNodes e cs)
     @ parseAnyNodes e after"
  by (simp add: parseAnyNodes_append parseAnyNodes_Cons split: option.splits)

lemma toLowerCase_P: "toLowerCase ''P'' = ''p''"
  by code_simp

lemma P_not_inline: "parseInlineNode e (ElementNode ''P'' attrs cs) = None"
  by (simp add: parseInlineNode_Element basicInline_def)

lemma list_not_inline:
  "tag = ''UL'' \<or> tag = ''OL'' \<Longrightarrow> parseInlineNode e (ElementNode tag attrs cs) = None"
  by (auto simp add: parseInlineNode_Element basicInline_def)

lemma parseList_eq:
  "parseList e node =
     ListBlock (parseList_start node)
       (map (\<lambda>item. parseAnyNodes e (getChildNodes item))
          (filter (\<lambda>child. getNodeElementName child = Some ''LI'') (getChildNodes node)))"
  by (simp add: parseList.simps parseList_items_append)

lemma parseCodeBlock_language_find:
  "parseCodeBlock_language clnames =
     (case find (\<lambda>clname. startsWith clname ''language-'' \<and> \<not> startsWith clname ''language-_'')
             clnames of
        None \<Rightarrow> []
      | Some clname \<Rightarrow> drop 9 clname)"
  by (induction clnames) (simp_all add: substring_def)

lemma PRE_not_inline: "parseInlineNode e (ElementNode ''PRE'' attrs cs) = None"
  by (simp add: parseInlineNode_Element basicInline_def)

lemma sameAttrs_map_of:
  "sameAttrs attrs attrs' \<Longrightarrow> name \<in> set allowedAttributes \<Longrightarrow> map_of attrs name = map_of attrs' name"
  by (induction attrs attrs' rule: sameAttrs.induct) auto

lemma sameNodes_list_all2: "sameNodes ns ns' \<Longrightarrow> list_all2 sameNode ns ns'"
proof (induction ns arbitrary: ns')
  case Nil
  then show ?case by (cases ns') simp_all
next
  case (Cons n ns)
  then show ?case by (cases ns') simp_all
qed

lemma agree_inline:
  "list_all2 (agree e) ns ns' \<Longrightarrow> parseInlineNodes e ns = parseInlineNodes e ns'"
  by (induction rule: list_all2_induct)
    (simp_all add: parseInlineNodes_Nil parseInlineNodes_Cons agree_def cong: option.case_cong)

lemma agree_any:
  "list_all2 (agree e) ns ns' \<Longrightarrow> parseAnyNodes e ns = parseAnyNodes e ns'"
  by (induction rule: list_all2_induct)
    (simp_all add: parseAnyNodes_Nil parseAnyNodes_Cons agree_def cong: option.case_cong)

lemma agree_items:
  "list_all2 (agree e) ns ns' \<Longrightarrow>
     map (\<lambda>item. parseAnyNodes e (getChildNodes item))
       (filter (\<lambda>child. getNodeElementName child = Some ''LI'') ns) =
     map (\<lambda>item. parseAnyNodes e (getChildNodes item))
       (filter (\<lambda>child. getNodeElementName child = Some ''LI'') ns')"
  by (induction rule: list_all2_induct) (simp_all add: agree_def)

lemma agree_textContent:
  "list_all2 (agree e) ns ns' \<Longrightarrow> concat (map textContent ns) = concat (map textContent ns')"
  by (induction rule: list_all2_induct) (simp_all add: agree_def)

lemma agree_parseCodeBlock:
  "list_all2 (agree e) cs cs' \<Longrightarrow>
     parseCodeBlock (ElementNode tag attrs cs) = parseCodeBlock (ElementNode tag' attrs' cs')"
  by (cases cs; cases cs') (simp_all add: parseCodeBlock_def agree_def)

lemma sameNode_agree: "sameNode n n' \<Longrightarrow> agree e n n'"
proof (induction n arbitrary: n')
  case (TextNode t)
  then show ?case by (cases n') (simp_all add: agree_def)
next
  case (OtherNode d)
  then show ?case by (cases n') (simp_all add: agree_def)
next
  case (ElementNode tag attrs cs)
  from ElementNode.prems obtain attrs' cs' where
    n': "n' = ElementNode tag attrs' cs'" and attrs: "sameAttrs attrs attrs'"
    and cs: "sameNodes cs cs'"
    by (cases n') simp_all
  have "list_all2 sameNode cs cs'"
    using cs by (rule sameNodes_list_all2)
  then have kids: "list_all2 (agree e) cs cs'"
    by (rule list.rel_mono_strong) (simp add: ElementNode.IH)
  have attr: "map_of attrs name = map_of attrs' name" if "name \<in> set allowedAttributes" for name
    using attrs that by (rule sameAttrs_map_of)
  note inl = agree_inline [OF kids] and any = agree_any [OF kids]
  have link: "parseLink e (ElementNode tg attrs cs) ps = parseLink e (ElementNode tg attrs' cs') ps"
    for ps tg
    using attr [of "''href''"] by (simp add: parseLink_def allowedAttributes_def Let_def)
  have image: "parseImage e (ElementNode tg attrs cs) = parseImage e (ElementNode tg attrs' cs')"
    for tg
    using attr [of "''src''"] attr [of "''width''"] attr [of "''height''"] attr [of "''alt''"]
      attr [of "''title''"]
    by (simp add: parseImage_def allowedAttributes_def Let_def)
  have lst: "parseList e (ElementNode tg attrs cs) = parseList e (ElementNode tg attrs' cs')"
    for tg
    using attr [of "''start''"] agree_items [OF kids]
    by (simp add: parseList_eq parseList_start_def allowedAttributes_def)
  have code: "parseCodeBlock (ElementNode tg attrs cs) = parseCodeBlock (ElementNode tg attrs' cs')"
    for tg
    by (rule agree_parseCodeBlock [OF kids])
  show ?case
    unfolding n' agree_def
    using attr [of "''class''"] agree_textContent [OF kids]
    by (simp add: parseInlineNode_Element parseBlockNode_Element inl any link image lst code
        textParts_def allowedAttributes_def)
qed

lemma parseLink_pill:
  "map_of attrs ''href'' = Some href \<Longrightarrow> href \<noteq> [] \<Longrightarrow>
   parsePillLink e href = Some (PillData (Some uid)) \<Longrightarrow> uid \<noteq> [] \<Longrightarrow>
   parseLink e (ElementNode tag attrs cs) children = PillPart uid href children"
  by (simp add: parseLink_def)

lemma parseLink_link:
  assumes "\<nexists>href uid. map_of attrs ''href'' = Some href \<and> href \<noteq> [] \<and>
     parsePillLink e href = Some (PillData (Some uid)) \<and> uid \<noteq> []"
  shows "parseLink e (ElementNode tag attrs cs) children = LinkPart (map_of attrs ''href'') children"
proof (cases "map_of attrs ''href''")
  case None
  then show ?thesis by (simp add: parseLink_def)
next
  case (Some href)
  show ?thesis
  proof (cases "href = []")
    case True
    with Some show ?thesis by (simp add: parseLink_def)
  next
    case False
    show ?thesis
    proof (cases "parsePillLink e href")
      case None
      with Some False show ?thesis by (simp add: parseLink_def)
    next
      case (Some pill)
      obtain user where pill: "pill = PillData user" by (cases pill)
      have "\<not> truthy user"
      proof (cases user)
        case None
        then show ?thesis by simp
      next
        case (Some uid)
        with assms \<open>map_of attrs ''href'' = Some href\<close> False \<open>parsePillLink e href = Some pill\<close> pill
        have "uid = []" by auto
        with Some show ?thesis by simp
      qed
      with \<open>map_of attrs ''href'' = Some href\<close> False Some pill show ?thesis
        by (simp add: parseLink_def)
    qed
  qed
qed

lemma anchor_inline:
  "parseInlineNode e (ElementNode ''A'' attrs cs) =
     Some (parseLink e (ElementNode ''A'' attrs cs) (parseInlineNodes e cs))"
  by (simp add: parseInlineNode_Element)

lemma inline_part_emitted:
  assumes "parseInlineNode e (ElementNode tag attrs cs) = Some part"
  shows "parseInlineNodes e (before @ ElementNode tag attrs cs # after) =
           parseInlineNodes e before @ [part] @ parseInlineNodes e after"
    and "parseAnyNodes e (before @ ElementNode tag attrs cs # after) =
           parseAnyNodes e before @ [part] @ parseAnyNodes e after"
  using assms by (simp_all add: parseInlineNodes_Element parseAnyNodes_Element orElse_def)

lemma parseInt_zero: "parseInt (Some ''0'') = Integer 0"
  by code_simp

lemma parseInt_absent: "parseInt None = NaN"
  by code_simp

lemma parseInt_leading_digit: "parseInt (Some ''1A'') = Integer 1"
  by code_simp

lemma parseList_start_ordered:
  "parseList_start (ElementNode ''OL'' attrs cs) =
     (case parseInt (map_of attrs ''start'') of
        NaN \<Rightarrow> Some (Integer 1)
      | Integer i \<Rightarrow> Some (Integer (if i = 0 then 1 else i))
      | Imprecise i \<Rightarrow> Some (Imprecise i))"
  by (simp add: parseList_start_def parseIntOr_def split: number.splits)

lemma parseList_start_unordered: "parseList_start (ElementNode ''UL'' attrs cs) = None"
  by (simp add: parseList_start_def)

lemma IMG_not_inline: "parseInlineNode e (ElementNode ''IMG'' attrs cs) = None"
  by (simp add: parseInlineNode_Element basicInline_def)

lemma parseImage_unresolved:
  "\<not> truthy (mxcUrl e (orEmpty (map_of attrs ''src''))) \<Longrightarrow>
     parseImage e (ElementNode tag attrs cs) = None"
  by (simp add: parseImage_def)

lemma parseImage_resolved:
  "mxcUrl e (orEmpty (map_of attrs ''src'')) = Some url \<Longrightarrow> url \<noteq> [] \<Longrightarrow>
     parseImage e (ElementNode tag attrs cs) =
       Some (ImagePart url
              (parseIntOr (map_of attrs ''width'') None)
              (parseIntOr (map_of attrs ''height'') None)
              (map_of attrs ''alt'') (map_of attrs ''title''))"
  by (simp add: parseImage_def)

lemma parseIntOr_None:
  "parseIntOr v None =
     (case parseInt v of
        NaN \<Rightarrow> None
      | Integer i \<Rightarrow> (if i = 0 then None else Some (Integer i))
      | Imprecise i \<Rightarrow> Some (Imprecise i))"
  by (simp add: parseIntOr_def split: number.splits)

section \<open>The call stack and the repository\<close>

declare parseInlineElement_run.simps [simp del] parseInlineNode_run.simps [simp del]
  parseInlineNodes_run.simps [simp del] parseList_run.simps [simp del]
  parseBlockElement_run.simps [simp del] parseBlockNode_run.simps [simp del]
  parseAnyNodes_run.simps [simp del]
  parseInlineNodes_into_run.simps(2) [simp del] parseAnyNodes_into_run.simps(2) [simp del]
  parseList_items_run.simps(2) [simp del]

lemma nestings_getChildNodes: "nestings (getChildNodes n) \<le> nesting n"
  by (cases n) simp_all

lemma nesting_element: "isElementNode n \<Longrightarrow> nesting n = Suc (nestings (getChildNodes n))"
  by (cases n) simp_all

lemma nesting_le_nestings: "n \<in> set ns \<Longrightarrow> nesting n \<le> nestings ns"
  by (induction ns) auto

lemma size_le_size_list: "n \<in> set ns \<Longrightarrow> size n < size_list size ns"
  by (induction ns) auto

lemma parseInlineNode_run_step:
  assumes "parseInlineNodes_into_run k e (getChildNodes n) [] =
             Inr (parseInlineNodes_into e (getChildNodes n) [])"
  shows "parseInlineNode_run (Suc (Suc (Suc k))) e n = Inr (parseInlineNode e n)"
  using assms
  by (simp add: parseInlineNode_run.simps parseInlineElement_run.simps parseInlineNodes_run.simps
      parseInlineNode.simps parseInlineElement.simps parseInlineNodes.simps Let_def
      split: option.splits)

lemma parseInlineNode_run_other:
  "\<not> isElementNode n \<Longrightarrow> parseInlineNode_run d e n = Inr (parseInlineNode e n)"
  by (simp add: parseInlineNode_run.simps parseInlineNode.simps)

lemma parseInlineNodes_into_run_enough:
  "4 * nestings nodes + 1 \<le> d \<Longrightarrow>
     parseInlineNodes_into_run d e nodes into = Inr (parseInlineNodes_into e nodes into)"
proof (induction "size_list size nodes" arbitrary: nodes d into rule: less_induct)
  case less
  show ?case
  proof (cases nodes)
    case Nil
    then show ?thesis by simp
  next
    case (Cons htmlNode rest)
    from less.prems Cons have hd: "4 * nesting htmlNode + 1 \<le> d"
      and tl: "4 * nestings rest + 1 \<le> d"
      by (simp_all add: max_def split: if_splits)
    from hd obtain d' where d: "d = Suc d'"
      by (cases d) simp_all
    have rest: "parseInlineNodes_into_run d e rest acc = Inr (parseInlineNodes_into e rest acc)"
      for acc
      by (rule less.hyps) (use tl Cons in simp_all)
    have kids: "parseInlineNodes_into_run k e (getChildNodes htmlNode) acc =
        Inr (parseInlineNodes_into e (getChildNodes htmlNode) acc)"
      if "4 * nestings (getChildNodes htmlNode) + 1 \<le> k" for k acc
      by (rule less.hyps) (use that size_getChildNodes [of htmlNode] Cons in simp_all)
    have fallback: "parseInlineNodes_into_run d' e (getChildNodes htmlNode) acc =
        Inr (parseInlineNodes_into e (getChildNodes htmlNode) acc)" for acc
    proof (cases "isElementNode htmlNode")
      case True
      show ?thesis
        by (rule kids) (use hd d nesting_element [OF True] in simp)
    next
      case False
      then have "getChildNodes htmlNode = []" by (cases htmlNode) simp_all
      then show ?thesis by simp
    qed
    have node: "parseInlineNode_run d' e htmlNode = Inr (parseInlineNode e htmlNode)"
    proof (cases "isElementNode htmlNode")
      case False
      then show ?thesis by (rule parseInlineNode_run_other)
    next
      case True
      with hd d have "4 * nestings (getChildNodes htmlNode) + 4 \<le> d'"
        using nesting_element [OF True] by simp
      then have k: "d' = Suc (Suc (Suc (d' - 3)))"
        and enough: "4 * nestings (getChildNodes htmlNode) + 1 \<le> d' - 3"
        by linarith+
      show ?thesis
        by (subst k, rule parseInlineNode_run_step, rule kids [OF enough])
    qed
    show ?thesis
      unfolding Cons d
      using rest node fallback
      by (simp add: parseInlineNodes_into_run.simps(2) d
          split: prod.splits bool.splits option.splits)
  qed
qed


lemma parseInlineNodes_run_enough:
  "4 * nestings nodes + 2 \<le> d \<Longrightarrow> parseInlineNodes_run d e nodes = Inr (parseInlineNodes e nodes)"
  using parseInlineNodes_into_run_enough [of nodes "d - 1" e "[]"]
  by (cases d) (simp_all add: parseInlineNodes_run.simps parseInlineNodes.simps)

lemma parseList_items_run_step:
  assumes "\<And>c. c \<in> set cs \<Longrightarrow> getNodeElementName c = Some ''LI'' \<Longrightarrow>
     parseAnyNodes_run k r e (getChildNodes c) = Inr (parseAnyNodes e (getChildNodes c))"
  shows "parseList_items_run (Suc k) r e cs acc = Inr (parseList_items e cs acc)"
  using assms
  by (induction cs arbitrary: acc) (simp_all add: parseList_items_run.simps(2))

lemma parseBlockNode_run_other:
  "\<not> isElementNode n \<Longrightarrow> parseBlockNode_run d r e n = Inr (parseBlockNode e n)"
  by (simp add: parseBlockNode_run.simps parseBlockNode.simps)

lemma parseBlockNode_run_step:
  assumes inl: "parseInlineNodes_run (Suc k) e (getChildNodes n) =
      Inr (parseInlineNodes e (getChildNodes n))"
    and any: "parseAnyNodes_run (Suc k) (Some (mxcUrl e)) e (getChildNodes n) =
      Inr (parseAnyNodes e (getChildNodes n))"
    and items: "\<And>c. c \<in> set (getChildNodes n) \<Longrightarrow> getNodeElementName c = Some ''LI'' \<Longrightarrow>
      parseAnyNodes_run k (Some (mxcUrl e)) e (getChildNodes c) =
        Inr (parseAnyNodes e (getChildNodes c))"
  shows "parseBlockNode_run (Suc (Suc (Suc k))) (Some (mxcUrl e)) e n = Inr (parseBlockNode e n)"
proof -
  have lst: "parseList_run (Suc k) (Some (mxcUrl e)) e n = Inr (parseList e n)"
    using parseList_items_run_step [of "getChildNodes n" k "Some (mxcUrl e)" e "[]"] items
    by (simp add: parseList_run.simps parseList.simps)
  show ?thesis
    using inl any lst
    by (simp add: parseBlockNode_run.simps parseBlockElement_run.simps
        parseBlockNode.simps parseBlockElement.simps Let_def split: option.splits)
qed


lemma parseAnyNodes_into_run_enough:
  "4 * nestings nodes + 1 \<le> d \<Longrightarrow>
     parseAnyNodes_into_run d (Some (mxcUrl e)) e nodes into =
       Inr (parseAnyNodes_into e nodes into)"
proof (induction "size_list size nodes" arbitrary: nodes d into rule: less_induct)
  case less
  show ?case
  proof (cases nodes)
    case Nil
    then show ?thesis by simp
  next
    case (Cons htmlNode rest)
    from less.prems Cons have hd: "4 * nesting htmlNode + 1 \<le> d"
      and tl: "4 * nestings rest + 1 \<le> d"
      by (simp_all add: max_def split: if_splits)
    from hd obtain d' where d: "d = Suc d'"
      by (cases d) simp_all
    have rest: "parseAnyNodes_into_run d (Some (mxcUrl e)) e rest acc =
        Inr (parseAnyNodes_into e rest acc)" for acc
      by (rule less.hyps) (use tl Cons in simp_all)
    have kids: "parseAnyNodes_into_run k (Some (mxcUrl e)) e (getChildNodes htmlNode) acc =
        Inr (parseAnyNodes_into e (getChildNodes htmlNode) acc)"
      if "4 * nestings (getChildNodes htmlNode) + 1 \<le> k" for k acc
      by (rule less.hyps) (use that size_getChildNodes [of htmlNode] Cons in simp_all)
    have fallback: "parseAnyNodes_into_run d' (Some (mxcUrl e)) e (getChildNodes htmlNode) acc =
        Inr (parseAnyNodes_into e (getChildNodes htmlNode) acc)" for acc
    proof (cases "isElementNode htmlNode")
      case True
      show ?thesis
        by (rule kids) (use hd d nesting_element [OF True] in simp)
    next
      case False
      then have "getChildNodes htmlNode = []" by (cases htmlNode) simp_all
      then show ?thesis by simp
    qed
    have nodes: "parseInlineNode_run d' e htmlNode = Inr (parseInlineNode e htmlNode) \<and>
      parseBlockNode_run d' (Some (mxcUrl e)) e htmlNode = Inr (parseBlockNode e htmlNode)"
    proof (cases "isElementNode htmlNode")
      case False
      then show ?thesis
        by (simp add: parseInlineNode_run_other parseBlockNode_run_other)
    next
      case True
      with hd d have room: "4 * nestings (getChildNodes htmlNode) + 4 \<le> d'"
        using nesting_element [OF True] by simp
      then have k: "d' = Suc (Suc (Suc (d' - 3)))"
        and enough: "4 * nestings (getChildNodes htmlNode) + 1 \<le> d' - 3"
        and enough2: "4 * nestings (getChildNodes htmlNode) + 2 \<le> Suc (d' - 3)"
        by linarith+
      have inl_into: "parseInlineNodes_into_run (d' - 3) e (getChildNodes htmlNode) [] =
          Inr (parseInlineNodes_into e (getChildNodes htmlNode) [])"
        using enough by (rule parseInlineNodes_into_run_enough)
      have inl: "parseInlineNodes_run (Suc (d' - 3)) e (getChildNodes htmlNode) =
          Inr (parseInlineNodes e (getChildNodes htmlNode))"
        using enough2 by (rule parseInlineNodes_run_enough)
      have any: "parseAnyNodes_run (Suc (d' - 3)) (Some (mxcUrl e)) e (getChildNodes htmlNode) =
          Inr (parseAnyNodes e (getChildNodes htmlNode))"
        using kids [OF enough, of "[]"]
        by (simp add: parseAnyNodes_run.simps parseAnyNodes.simps)
      have items: "parseAnyNodes_run (d' - 3) (Some (mxcUrl e)) e (getChildNodes c) =
          Inr (parseAnyNodes e (getChildNodes c))"
        if c: "c \<in> set (getChildNodes htmlNode)" and li: "getNodeElementName c = Some ''LI''" for c
      proof -
        from li have el: "isElementNode c" by (cases c) simp_all
        have "nesting c \<le> nestings (getChildNodes htmlNode)"
          using c by (rule nesting_le_nestings)
        with nesting_element [OF el] enough
        have deep: "4 * nestings (getChildNodes c) + 1 \<le> d' - 3 - 1" and pos: "d' - 3 = Suc (d' - 3 - 1)"
          by linarith+
        have "size_list size (getChildNodes c) < size_list size nodes"
          using size_getChildNodes [of c] size_le_size_list [OF c] size_getChildNodes [of htmlNode] Cons
          by simp
        then have "parseAnyNodes_into_run (d' - 3 - 1) (Some (mxcUrl e)) e (getChildNodes c) [] =
            Inr (parseAnyNodes_into e (getChildNodes c) [])"
          using deep by (rule less.hyps)
        then show ?thesis
          by (subst pos) (simp add: parseAnyNodes_run.simps parseAnyNodes.simps)
      qed
      have "parseInlineNode_run (Suc (Suc (Suc (d' - 3)))) e htmlNode =
          Inr (parseInlineNode e htmlNode)"
        using inl_into by (rule parseInlineNode_run_step)
      moreover have "parseBlockNode_run (Suc (Suc (Suc (d' - 3)))) (Some (mxcUrl e)) e htmlNode =
          Inr (parseBlockNode e htmlNode)"
        using inl any items by (rule parseBlockNode_run_step)
      ultimately show ?thesis
        using k by simp
    qed
    show ?thesis
      unfolding Cons d
      using rest nodes fallback
      by (simp add: parseAnyNodes_into_run.simps(2) d orElse_def
          split: prod.splits bool.splits option.splits)
  qed
qed

lemma nestedSpans_inline_exhausts:
  "k \<le> m \<Longrightarrow> parseInlineNodes_into_run k e [nestedSpans m] into = Inl RangeError"
proof (induction k arbitrary: m into rule: less_induct)
  case (less k)
  show ?case
  proof (cases k)
    case 0
    then show ?thesis by (simp add: parseInlineNodes_into_run.simps(2))
  next
    case (Suc k1)
    with less.prems obtain m1 where m: "m = Suc m1" and le: "k1 \<le> m1"
      by (cases m) simp_all
    have deeper: "parseInlineNodes_into_run k4 e [nestedSpans m1] [] = Inl RangeError"
      if "k4 < k" "k4 \<le> m1" for k4
      using that by (rule less.IH)
    show ?thesis
    proof (cases k1)
      case 0
      with Suc m show ?thesis
        by (simp add: parseInlineNodes_into_run.simps(2) parseTextParts_into_def
            parseInlineNode_run.simps)
    next
      case k1: (Suc k2)
      show ?thesis
      proof (cases k2)
        case 0
        with Suc k1 m show ?thesis
          by (simp add: parseInlineNodes_into_run.simps(2) parseTextParts_into_def
              parseInlineNode_run.simps parseInlineElement_run.simps basicInline_def)
      next
        case k2: (Suc k3)
        show ?thesis
        proof (cases k3)
          case 0
          with Suc k1 k2 m show ?thesis
            by (simp add: parseInlineNodes_into_run.simps(2) parseTextParts_into_def
                parseInlineNode_run.simps parseInlineElement_run.simps basicInline_def
                parseInlineNodes_run.simps)
        next
          case k3: (Suc k4)
          have "parseInlineNodes_into_run k4 e [nestedSpans m1] [] = Inl RangeError"
            by (rule deeper) (use Suc k1 k2 k3 le in simp_all)
          with Suc k1 k2 k3 m show ?thesis
            by (simp add: parseInlineNodes_into_run.simps(2) parseTextParts_into_def
                parseInlineNode_run.simps parseInlineElement_run.simps basicInline_def
                parseInlineNodes_run.simps)
        qed
      qed
    qed
  qed
qed

lemma nestedSpans_exhausts:
  "parseAnyNodes_run d r e [nestedSpans d] = Inl RangeError"
proof (cases d)
  case 0
  then show ?thesis by (simp add: parseAnyNodes_run.simps)
next
  case (Suc d1)
  show ?thesis
  proof (cases d1)
    case 0
    with Suc show ?thesis
      by (simp add: parseAnyNodes_run.simps parseAnyNodes_into_run.simps(2))
  next
    case d1: (Suc d2)
    have inner: "parseInlineNodes_into_run k e [nestedSpans d1] [] = Inl RangeError" if "k \<le> d1" for k
      using that by (rule nestedSpans_inline_exhausts)
    have "parseInlineNode_run d2 e (nestedSpans d) = Inl RangeError"
    proof (cases d2)
      case 0
      with Suc show ?thesis by (simp add: parseInlineNode_run.simps)
    next
      case d2: (Suc d3)
      show ?thesis
      proof (cases d3)
        case 0
        with Suc d2 show ?thesis
          by (simp add: parseInlineNode_run.simps parseInlineElement_run.simps basicInline_def)
      next
        case d3: (Suc d4)
        show ?thesis
        proof (cases d4)
          case 0
          with Suc d2 d3 show ?thesis
            by (simp add: parseInlineNode_run.simps parseInlineElement_run.simps basicInline_def
                parseInlineNodes_run.simps)
        next
          case d4: (Suc d5)
          have "parseInlineNodes_into_run d5 e [nestedSpans d1] [] = Inl RangeError"
            by (rule inner) (use d1 d2 d3 d4 in simp)
          with Suc d2 d3 d4 show ?thesis
            by (simp add: parseInlineNode_run.simps parseInlineElement_run.simps basicInline_def
                parseInlineNodes_run.simps)
        qed
      qed
    qed
    with Suc d1 show ?thesis
      by (simp add: parseAnyNodes_run.simps parseAnyNodes_into_run.simps(2)
          parseTextParts_into_def)
  qed
qed

lemma null_repository_image:
  "4 \<le> d \<Longrightarrow> parseAnyNodes_run d None e [ElementNode ''IMG'' attrs cs] = Inl TypeError"
proof -
  assume "4 \<le> d"
  then have d: "d = Suc (Suc (Suc (Suc (d - 4))))" by linarith
  show ?thesis
    by (subst d)
      (simp add: parseAnyNodes_run.simps parseAnyNodes_into_run.simps(2) parseTextParts_into_def
        parseInlineNode_run.simps parseInlineElement_run.simps basicInline_def
        parseBlockNode_run.simps parseBlockElement_run.simps headerTags_def)
qed

lemma parseAnyNodes_run_enough:
  "4 * nestings nodes + 2 \<le> d \<Longrightarrow>
     parseAnyNodes_run d (Some (mxcUrl e)) e nodes = Inr (parseAnyNodes e nodes)"
  using parseAnyNodes_into_run_enough [of nodes "d - 1" e "[]"]
  by (cases d) (simp_all add: parseAnyNodes_run.simps parseAnyNodes.simps)

lemma parseHTMLBody_eq:
  "parseHTMLBody parseHTML e html = MessageBody html (parseAnyNodes e (parseHTML html))"
  by (simp add: parseHTMLBody_def)

section \<open>Properties of the deserializer\<close>

text \<open>
  C1. With a media repository that is an object and a call stack that has room for the
  nesting of the tree (four frames for each level of nesting, and two more for
  \<open>parseAnyNodes\<close>, three for \<open>parseHTMLBody\<close>), \<open>parseAnyNodes\<close> and
  \<open>parseHTMLBody\<close> return: the result is the part sequence defined above, and the
  message body holds it with the input string verbatim. A tree with no root node gives
  the empty part sequence, whatever the repository.
\<close>

theorem deserialization_returns_with_room:
  "(4 * nestings nodes + 2 \<le> d \<longrightarrow>
      parseAnyNodes_run d (Some (mxcUrl e)) e nodes = Inr (parseAnyNodes e nodes)) \<and>
   (4 * nestings (parseHTML html) + 3 \<le> d \<longrightarrow>
      parseHTMLBody_run d parseHTML (Some (mxcUrl e)) e html =
        Inr (MessageBody html (parseAnyNodes e (parseHTML html)))) \<and>
   parseHTMLBody_run (Suc (Suc d)) (\<lambda>html. []) r e html = Inr (MessageBody html [])"
proof (intro conjI impI)
  assume "4 * nestings nodes + 2 \<le> d"
  then show "parseAnyNodes_run d (Some (mxcUrl e)) e nodes = Inr (parseAnyNodes e nodes)"
    by (rule parseAnyNodes_run_enough)
next
  assume room: "4 * nestings (parseHTML html) + 3 \<le> d"
  then have d: "d = Suc (d - 1)" and "4 * nestings (parseHTML html) + 2 \<le> d - 1"
    by linarith+
  then have "parseAnyNodes_run (d - 1) (Some (mxcUrl e)) e (parseHTML html) =
      Inr (parseAnyNodes e (parseHTML html))"
    by (simp add: parseAnyNodes_run_enough)
  then show "parseHTMLBody_run d parseHTML (Some (mxcUrl e)) e html =
        Inr (MessageBody html (parseAnyNodes e (parseHTML html)))"
    by (subst d) (simp add: parseHTMLBody_run_def)
next
  show "parseHTMLBody_run (Suc (Suc d)) (\<lambda>html. []) r e html = Inr (MessageBody html [])"
    by (simp add: parseHTMLBody_run_def parseAnyNodes_run.simps)
qed

theorem deserialization_returns_with_room_witness:
  "4 * nestings [ElementNode ''P'' [] [TextNode ''hello'', ElementNode ''EM'' [] [TextNode ''x'']]] + 2
     \<le> (10 :: nat) \<and>
   parseAnyNodes_run 10 (Some (mxcUrl exampleEnv)) exampleEnv
     [ElementNode ''P'' [] [TextNode ''hello'', ElementNode ''EM'' [] [TextNode ''x'']]] =
     Inr [Format ''p'' [TextPart ''hello'', Format ''em'' [TextPart ''x'']]] \<and>
   4 * nestings ((\<lambda>html. [ElementNode ''EM'' [] [TextNode html]]) ''Hello'') + 3 \<le> (7 :: nat) \<and>
   parseHTMLBody_run 7 (\<lambda>html. [ElementNode ''EM'' [] [TextNode html]])
     (Some (mxcUrl exampleEnv)) exampleEnv ''Hello'' =
     Inr (MessageBody ''Hello'' [Format ''em'' [TextPart ''Hello'']])"
proof -
  have room: "4 * nestings [ElementNode ''P'' [] [TextNode ''hello'', ElementNode ''EM'' [] [TextNode ''x'']]] + 2
     \<le> (10 :: nat)"
    by simp
  have room2: "4 * nestings ((\<lambda>html. [ElementNode ''EM'' [] [TextNode html]]) ''Hello'') + 3 \<le> (7 :: nat)"
    by simp
  have pure: "parseAnyNodes exampleEnv
     [ElementNode ''P'' [] [TextNode ''hello'', ElementNode ''EM'' [] [TextNode ''x'']]] =
     [Format ''p'' [TextPart ''hello'', Format ''em'' [TextPart ''x'']]]"
    "parseAnyNodes exampleEnv [ElementNode ''EM'' [] [TextNode ''Hello'']] =
     [Format ''em'' [TextPart ''Hello'']]"
    by code_simp+
  from deserialization_returns_with_room [where d = 10 and e = exampleEnv
      and nodes = "[ElementNode ''P'' [] [TextNode ''hello'', ElementNode ''EM'' [] [TextNode ''x'']]]",
      THEN conjunct1, rule_format, OF room]
  have first: "parseAnyNodes_run 10 (Some (mxcUrl exampleEnv)) exampleEnv
     [ElementNode ''P'' [] [TextNode ''hello'', ElementNode ''EM'' [] [TextNode ''x'']]] =
     Inr [Format ''p'' [TextPart ''hello'', Format ''em'' [TextPart ''x'']]]"
    by (simp add: pure)
  from deserialization_returns_with_room [where d = 7 and e = exampleEnv
      and parseHTML = "\<lambda>html. [ElementNode ''EM'' [] [TextNode html]]" and html = "''Hello''",
      THEN conjunct2, THEN conjunct1, rule_format, OF room2]
  have second: "parseHTMLBody_run 7 (\<lambda>html. [ElementNode ''EM'' [] [TextNode html]])
     (Some (mxcUrl exampleEnv)) exampleEnv ''Hello'' =
     Inr (MessageBody ''Hello'' [Format ''em'' [TextPart ''Hello'']])"
    by (simp add: pure)
  from room room2 first second show ?thesis by blast
qed

text \<open>
  C1, as first stated, has the deserializer return for every tree and every repository.
  A text inside 10000 nested \<open>SPAN\<close> elements exhausts a call stack of 10000 frames
  (\<open>nestedSpans_exhausts\<close>: as many nested elements as there are frames exhaust any
  stack), and an \<open>IMG\<close> element with the \<open>null\<close> repository raises \<open>TypeError\<close>.
\<close>

theorem deserialization_raises:
  "parseAnyNodes_run 10000 (Some (mxcUrl exampleEnv)) exampleEnv [nestedSpans 10000] =
     Inl RangeError \<and>
   parseAnyNodes_run 10000 None exampleEnv
     [ElementNode ''IMG'' [(''src'', ''mxc://example.org/abc'')] []] = Inl TypeError"
  using nestedSpans_exhausts [of 10000 "Some (mxcUrl exampleEnv)" exampleEnv]
    null_repository_image [of 10000 exampleEnv "[(''src'', ''mxc://example.org/abc'')]" "[]"]
  by simp

text \<open>
  C2. Two trees that differ only in the values of attributes whose names are not among
  \<open>href\<close>, \<open>src\<close>, \<open>width\<close>, \<open>height\<close>, \<open>alt\<close>, \<open>title\<close>, \<open>class\<close> and
  \<open>start\<close> give the same parts, in block context and in inline context.
\<close>

theorem other_attributes_do_not_interfere:
  "sameNodes nodes nodes' \<Longrightarrow>
     parseAnyNodes e nodes = parseAnyNodes e nodes' \<and>
     parseInlineNodes e nodes = parseInlineNodes e nodes'"
proof -
  assume "sameNodes nodes nodes'"
  then have "list_all2 sameNode nodes nodes'"
    by (rule sameNodes_list_all2)
  then have "list_all2 (agree e) nodes nodes'"
    by (rule list.rel_mono_strong) (rule sameNode_agree)
  then show ?thesis
    by (simp add: agree_any agree_inline)
qed

theorem other_attributes_do_not_interfere_witness:
  "sameNodes
     [ElementNode ''EM'' [(''onmouseover'', ''alert(1)'')] [TextNode ''Hello'']]
     [ElementNode ''EM'' [(''onmouseover'', ''other'')] [TextNode ''Hello'']] \<and>
   parseAnyNodes exampleEnv
     [ElementNode ''EM'' [(''onmouseover'', ''alert(1)'')] [TextNode ''Hello'']] =
     [Format ''em'' [TextPart ''Hello'']] \<and>
   parseAnyNodes exampleEnv
     [ElementNode ''EM'' [(''onmouseover'', ''other'')] [TextNode ''Hello'']] =
     [Format ''em'' [TextPart ''Hello'']]"
proof -
  have same: "sameNodes
     [ElementNode ''EM'' [(''onmouseover'', ''alert(1)'')] [TextNode ''Hello'']]
     [ElementNode ''EM'' [(''onmouseover'', ''other'')] [TextNode ''Hello'']]"
    by (simp add: allowedAttributes_def)
  have first: "parseAnyNodes exampleEnv
     [ElementNode ''EM'' [(''onmouseover'', ''alert(1)'')] [TextNode ''Hello'']] =
     [Format ''em'' [TextPart ''Hello'']]"
    by code_simp
  from other_attributes_do_not_interfere [OF same, of exampleEnv] same first
  show ?thesis by simp
qed

text \<open>
  C3. An element whose tag is none of the inline tags (\<open>A\<close>, \<open>BR\<close>, the basic inline
  tags) gives no part of its own in inline context: the parts of its children, classified
  in inline context, stand where the element stood. An element whose tag is neither an
  inline tag nor a block tag (the headers, \<open>UL\<close>, \<open>OL\<close>, \<open>PRE\<close>, \<open>HR\<close>, \<open>IMG\<close>,
  \<open>P\<close>, the basic block tags) gives no part of its own in mixed context: the parts of its
  children, classified in mixed context, stand where the element stood.
\<close>

theorem unknown_element_unwrapped:
  "(tag \<notin> set ([''A'', ''BR''] @ basicInline) \<longrightarrow>
      parseInlineNode e (ElementNode tag attrs cs) = None \<and>
      parseInlineNodes e (before @ ElementNode tag attrs cs # after) =
        parseInlineNodes e before @ parseInlineNodes e cs @ parseInlineNodes e after) \<and>
   (tag \<notin> set ([''A'', ''BR''] @ basicInline) \<and>
    tag \<notin> set (headerTags @ [''UL'', ''OL'', ''PRE'', ''HR'', ''IMG'', ''P''] @ basicBlock) \<longrightarrow>
      parseInlineNode e (ElementNode tag attrs cs) = None \<and>
      parseBlockNode e (ElementNode tag attrs cs) = None \<and>
      parseAnyNodes e (before @ ElementNode tag attrs cs # after) =
        parseAnyNodes e before @ parseAnyNodes e cs @ parseAnyNodes e after)"
proof (intro conjI impI)
  assume inl: "tag \<notin> set ([''A'', ''BR''] @ basicInline)"
  then show none: "parseInlineNode e (ElementNode tag attrs cs) = None"
    by (simp add: parseInlineNode_Element)
  then show "parseInlineNodes e (before @ ElementNode tag attrs cs # after) =
        parseInlineNodes e before @ parseInlineNodes e cs @ parseInlineNodes e after"
    by (simp add: parseInlineNodes_Element)
next
  assume both: "tag \<notin> set ([''A'', ''BR''] @ basicInline) \<and>
    tag \<notin> set (headerTags @ [''UL'', ''OL'', ''PRE'', ''HR'', ''IMG'', ''P''] @ basicBlock)"
  then show inl: "parseInlineNode e (ElementNode tag attrs cs) = None"
    by (simp add: parseInlineNode_Element)
  from both show blk: "parseBlockNode e (ElementNode tag attrs cs) = None"
    by (simp add: parseBlockNode_Element)
  from inl blk show "parseAnyNodes e (before @ ElementNode tag attrs cs # after) =
        parseAnyNodes e before @ parseAnyNodes e cs @ parseAnyNodes e after"
    by (simp add: parseAnyNodes_Element orElse_def)
qed

theorem unknown_element_unwrapped_witness:
  "''DFN'' \<notin> set ([''A'', ''BR''] @ basicInline) \<and>
   ''DFN'' \<notin> set (headerTags @ [''UL'', ''OL'', ''PRE'', ''HR'', ''IMG'', ''P''] @ basicBlock) \<and>
   parseInlineNodes exampleEnv
     ([TextNode ''a''] @ ElementNode ''DFN'' [] [ElementNode ''CODE'' [] [TextNode ''Hello'']]
        # [TextNode ''b'']) =
     [TextPart ''a'', Format ''code'' [TextPart ''Hello''], TextPart ''b''] \<and>
   parseAnyNodes exampleEnv
     ([TextNode ''a''] @ ElementNode ''DFN'' [] [ElementNode ''P'' [] [TextNode ''Hello'']]
        # [TextNode ''b'']) =
     [TextPart ''a'', Format ''p'' [TextPart ''Hello''], TextPart ''b'']"
proof -
  have tag: "''DFN'' \<notin> set ([''A'', ''BR''] @ basicInline)"
    "''DFN'' \<notin> set (headerTags @ [''UL'', ''OL'', ''PRE'', ''HR'', ''IMG'', ''P''] @ basicBlock)"
    by (simp_all add: basicInline_def headerTags_def basicBlock_def)
  have inl: "parseInlineNodes exampleEnv [TextNode ''a''] = [TextPart ''a'']"
    "parseInlineNodes exampleEnv [ElementNode ''CODE'' [] [TextNode ''Hello'']] =
       [Format ''code'' [TextPart ''Hello'']]"
    "parseInlineNodes exampleEnv [TextNode ''b''] = [TextPart ''b'']"
    by code_simp+
  have any: "parseAnyNodes exampleEnv [TextNode ''a''] = [TextPart ''a'']"
    "parseAnyNodes exampleEnv [ElementNode ''P'' [] [TextNode ''Hello'']] =
       [Format ''p'' [TextPart ''Hello'']]"
    "parseAnyNodes exampleEnv [TextNode ''b''] = [TextPart ''b'']"
    by code_simp+
  from unknown_element_unwrapped [where tag = "''DFN''" and e = exampleEnv and attrs = "[]"
      and cs = "[ElementNode ''CODE'' [] [TextNode ''Hello'']]"
      and before = "[TextNode ''a'']" and after = "[TextNode ''b'']"]
    unknown_element_unwrapped [where tag = "''DFN''" and e = exampleEnv and attrs = "[]"
      and cs = "[ElementNode ''P'' [] [TextNode ''Hello'']]"
      and before = "[TextNode ''a'']" and after = "[TextNode ''b'']"]
    tag inl any
  show ?thesis by simp
qed

text \<open>
  C4. The start of the list block of an \<open>OL\<close> element is the number \<open>parseInt\<close>
  reads from the \<open>start\<close> attribute, and 1 when \<open>parseInt\<close> gives \<open>NaN\<close> (the
  attribute is missing, as \<open>parseInt\<close> of a missing value is \<open>NaN\<close>, or it does not
  begin with a number) or gives zero; a value such as \<open>"1A"\<close> reads as 1. The list
  block of a \<open>UL\<close> element has no start, whatever its attributes. Both in
  \<open>parseList\<close> and for the element in mixed context.
\<close>

theorem ordered_list_start:
  "parseList e (ElementNode ''OL'' attrs cs) =
     ListBlock
       (case parseInt (map_of attrs ''start'') of
          NaN \<Rightarrow> Some (Integer 1)
        | Integer i \<Rightarrow> Some (Integer (if i = 0 then 1 else i))
        | Imprecise i \<Rightarrow> Some (Imprecise i))
       (parseList_items e cs []) \<and>
   parseList e (ElementNode ''UL'' attrs cs) = ListBlock None (parseList_items e cs []) \<and>
   parseAnyNodes e (before @ ElementNode ''OL'' attrs cs # after) =
     parseAnyNodes e before @ [parseList e (ElementNode ''OL'' attrs cs)] @ parseAnyNodes e after \<and>
   parseAnyNodes e (before @ ElementNode ''UL'' attrs cs # after) =
     parseAnyNodes e before @ [parseList e (ElementNode ''UL'' attrs cs)] @ parseAnyNodes e after \<and>
   parseInt None = NaN \<and>
   parseInt (Some ''3'') = Integer 3 \<and>
   parseInt (Some ''1A'') = Integer 1"
proof (intro conjI)
  show "parseList e (ElementNode ''OL'' attrs cs) =
     ListBlock
       (case parseInt (map_of attrs ''start'') of
          NaN \<Rightarrow> Some (Integer 1)
        | Integer i \<Rightarrow> Some (Integer (if i = 0 then 1 else i))
        | Imprecise i \<Rightarrow> Some (Imprecise i))
       (parseList_items e cs [])"
    by (simp add: parseList.simps parseList_start_ordered)
  show "parseList e (ElementNode ''UL'' attrs cs) = ListBlock None (parseList_items e cs [])"
    by (simp add: parseList.simps parseList_start_unordered)
  show "parseAnyNodes e (before @ ElementNode ''OL'' attrs cs # after) =
     parseAnyNodes e before @ [parseList e (ElementNode ''OL'' attrs cs)] @ parseAnyNodes e after"
    by (simp add: parseAnyNodes_Element list_not_inline parseBlockNode_Element headerTags_def
        orElse_def)
  show "parseAnyNodes e (before @ ElementNode ''UL'' attrs cs # after) =
     parseAnyNodes e before @ [parseList e (ElementNode ''UL'' attrs cs)] @ parseAnyNodes e after"
    by (simp add: parseAnyNodes_Element list_not_inline parseBlockNode_Element headerTags_def
        orElse_def)
  show "parseInt None = NaN"
    by (rule parseInt_absent)
  show "parseInt (Some ''3'') = Integer 3"
    by code_simp
  show "parseInt (Some ''1A'') = Integer 1"
    by (rule parseInt_leading_digit)
qed

text \<open>
  C4, as first stated, has the default only for a missing or unparsable attribute. The
  start attribute \<open>"0"\<close> is present and \<open>parseInt\<close> reads the integer 0 from it,
  yet the list block starts at 1: \<open>parseInt(...) || 1\<close> takes the default for every
  falsy number.
\<close>

theorem ordered_list_start_zero:
  "map_of [(''start'', ''0'')] ''start'' = Some ''0'' \<and>
   parseInt (Some ''0'') = Integer 0 \<and>
   parseAnyNodes exampleEnv
     [ElementNode ''OL'' [(''start'', ''0'')] [ElementNode ''LI'' [] [TextNode ''x'']]] =
     [ListBlock (Some (Integer 1)) [[TextPart ''x'']]] \<and>
   parseList_start (ElementNode ''OL'' [(''start'', ''0'')] [ElementNode ''LI'' [] [TextNode ''x'']])
     \<noteq> Some (parseInt (Some ''0''))"
  by code_simp

text \<open>
  C5. \<open>parseCodeBlock\<close> gives nothing when the node has no first child or the first
  child is not a \<open>CODE\<close> element; otherwise it gives a code block whose text is the
  \<open>textContent\<close> of that child and whose language is what follows \<open>language-\<close> in the
  first piece of the child's \<open>class\<close> attribute, split at spaces, that starts with
  \<open>language-\<close> and not with \<open>language-_\<close>, or the empty string when there is no such
  piece. In mixed context a \<open>PRE\<close> element gives that code block, and when there is
  none the parts of its children, classified in mixed context, stand in its place.
\<close>

theorem pre_code_block:
  "parseCodeBlock node =
     (case getChildNodes node of
        [] \<Rightarrow> None
      | codeNode # others \<Rightarrow>
          if getNodeElementName codeNode = Some ''CODE''
          then Some (CodeBlock
                 (case find (\<lambda>clname. startsWith clname ''language-'' \<and>
                                       \<not> startsWith clname ''language-_'')
                         (split_space (orEmpty (getAttributeValue codeNode ''class''))) of
                    None \<Rightarrow> []
                  | Some clname \<Rightarrow> drop 9 clname)
                 (textContent codeNode))
          else None) \<and>
   parseAnyNodes e (before @ ElementNode ''PRE'' attrs cs # after) =
     parseAnyNodes e before
     @ (case parseCodeBlock (ElementNode ''PRE'' attrs cs) of
          Some codeBlock \<Rightarrow> [codeBlock]
        | None \<Rightarrow> parseAnyNodes e cs)
     @ parseAnyNodes e after"
  by (simp add: parseCodeBlock_def parseCodeBlock_language_find parseAnyNodes_Element
      PRE_not_inline parseBlockNode_Element headerTags_def orElse_def
      split: list.splits option.splits)

text \<open>
  C6. When the media repository does not resolve the \<open>src\<close> attribute of an \<open>IMG\<close>
  element, or the attribute is absent (the repository is then handed the empty string,
  which it does not resolve), the element gives no image part, and in mixed context the
  parts of its children stand in its place: with no children, nothing.
  When it resolves to a URL, the element gives an image part with that URL, with the
  \<open>alt\<close> and \<open>title\<close> attributes as read, and with a width and a height that are the
  numbers \<open>parseInt\<close> reads from the attributes, absent when \<open>parseInt\<close> gives \<open>NaN\<close>
  (the attribute is missing or does not begin with a number) or gives zero.
\<close>

theorem image_part:
  "(\<not> truthy (mxcUrl e (orEmpty (map_of attrs ''src''))) \<longrightarrow>
      parseImage e (ElementNode ''IMG'' attrs cs) = None \<and>
      parseAnyNodes e (before @ ElementNode ''IMG'' attrs cs # after) =
        parseAnyNodes e before @ parseAnyNodes e cs @ parseAnyNodes e after) \<and>
   (map_of attrs ''src'' = None \<and> \<not> truthy (mxcUrl e []) \<longrightarrow>
      parseImage e (ElementNode ''IMG'' attrs cs) = None \<and>
      parseAnyNodes e (before @ ElementNode ''IMG'' attrs cs # after) =
        parseAnyNodes e before @ parseAnyNodes e cs @ parseAnyNodes e after) \<and>
   (\<forall>url. mxcUrl e (orEmpty (map_of attrs ''src'')) = Some url \<and> url \<noteq> [] \<longrightarrow>
      parseAnyNodes e (before @ ElementNode ''IMG'' attrs cs # after) =
        parseAnyNodes e before
        @ [ImagePart url
             (case parseInt (map_of attrs ''width'') of
                NaN \<Rightarrow> None
              | Integer i \<Rightarrow> (if i = 0 then None else Some (Integer i))
              | Imprecise i \<Rightarrow> Some (Imprecise i))
             (case parseInt (map_of attrs ''height'') of
                NaN \<Rightarrow> None
              | Integer i \<Rightarrow> (if i = 0 then None else Some (Integer i))
              | Imprecise i \<Rightarrow> Some (Imprecise i))
             (map_of attrs ''alt'') (map_of attrs ''title'')]
        @ parseAnyNodes e after)"
proof (intro conjI allI impI)
  assume unresolved: "\<not> truthy (mxcUrl e (orEmpty (map_of attrs ''src'')))"
  then show none: "parseImage e (ElementNode ''IMG'' attrs cs) = None"
    by (rule parseImage_unresolved)
  then show "parseAnyNodes e (before @ ElementNode ''IMG'' attrs cs # after) =
        parseAnyNodes e before @ parseAnyNodes e cs @ parseAnyNodes e after"
    by (simp add: parseAnyNodes_Element IMG_not_inline parseBlockNode_Element headerTags_def
        orElse_def)
next
  assume "map_of attrs ''src'' = None \<and> \<not> truthy (mxcUrl e [])"
  then show none: "parseImage e (ElementNode ''IMG'' attrs cs) = None"
    by (simp add: parseImage_def)
  then show "parseAnyNodes e (before @ ElementNode ''IMG'' attrs cs # after) =
        parseAnyNodes e before @ parseAnyNodes e cs @ parseAnyNodes e after"
    by (simp add: parseAnyNodes_Element IMG_not_inline parseBlockNode_Element headerTags_def
        orElse_def)
next
  fix url
  assume "mxcUrl e (orEmpty (map_of attrs ''src'')) = Some url \<and> url \<noteq> []"
  then have "parseImage e (ElementNode ''IMG'' attrs cs) =
       Some (ImagePart url
              (parseIntOr (map_of attrs ''width'') None)
              (parseIntOr (map_of attrs ''height'') None)
              (map_of attrs ''alt'') (map_of attrs ''title''))"
    by (simp add: parseImage_resolved)
  then show "parseAnyNodes e (before @ ElementNode ''IMG'' attrs cs # after) =
        parseAnyNodes e before
        @ [ImagePart url
             (case parseInt (map_of attrs ''width'') of
                NaN \<Rightarrow> None
              | Integer i \<Rightarrow> (if i = 0 then None else Some (Integer i))
              | Imprecise i \<Rightarrow> Some (Imprecise i))
             (case parseInt (map_of attrs ''height'') of
                NaN \<Rightarrow> None
              | Integer i \<Rightarrow> (if i = 0 then None else Some (Integer i))
              | Imprecise i \<Rightarrow> Some (Imprecise i))
             (map_of attrs ''alt'') (map_of attrs ''title'')]
        @ parseAnyNodes e after"
    by (simp add: parseAnyNodes_Element IMG_not_inline parseBlockNode_Element headerTags_def
        orElse_def parseIntOr_None)
qed

theorem image_part_witness:
  "\<not> truthy (mxcUrl exampleEnv (orEmpty (map_of [(''src'', ''https://example.org/x.png'')] ''src''))) \<and>
   parseAnyNodes exampleEnv
     ([TextNode ''a''] @ ElementNode ''IMG'' [(''src'', ''https://example.org/x.png'')] []
        # [TextNode ''b'']) =
     [TextPart ''a'', TextPart ''b''] \<and>
   map_of [(''alt'', ''cat'')] ''src'' = None \<and> \<not> truthy (mxcUrl exampleEnv []) \<and>
   parseImage exampleEnv (ElementNode ''IMG'' [(''alt'', ''cat'')] []) = None \<and>
   mxcUrl exampleEnv
     (orEmpty (map_of [(''src'', ''mxc://example.org/abc''), (''width'', ''40''),
                       (''height'', ''tall''), (''alt'', ''cat'')] ''src'')) =
     Some ''https://example.org/media/example.org/abc'' \<and>
   ''https://example.org/media/example.org/abc'' \<noteq> [] \<and>
   parseAnyNodes exampleEnv
     ([] @ ElementNode ''IMG'' [(''src'', ''mxc://example.org/abc''), (''width'', ''40''),
                                (''height'', ''tall''), (''alt'', ''cat'')] [] # []) =
     [ImagePart ''https://example.org/media/example.org/abc'' (Some (Integer 40)) None
        (Some ''cat'') None]"
proof -
  have unresolved:
    "\<not> truthy (mxcUrl exampleEnv (orEmpty (map_of [(''src'', ''https://example.org/x.png'')] ''src'')))"
    by (simp add: exampleEnv_def startsWith_def)
  have absent: "map_of [(''alt'', ''cat'')] ''src'' = None \<and> \<not> truthy (mxcUrl exampleEnv [])"
    by (simp add: exampleEnv_def startsWith_def)
  have resolved: "mxcUrl exampleEnv
     (orEmpty (map_of [(''src'', ''mxc://example.org/abc''), (''width'', ''40''),
                       (''height'', ''tall''), (''alt'', ''cat'')] ''src'')) =
     Some ''https://example.org/media/example.org/abc'' \<and>
   ''https://example.org/media/example.org/abc'' \<noteq> []"
    by (simp add: exampleEnv_def startsWith_def substring_def)
  have texts: "parseAnyNodes exampleEnv [TextNode ''a''] = [TextPart ''a'']"
    "parseAnyNodes exampleEnv [TextNode ''b''] = [TextPart ''b'']"
    by code_simp+
  have numbers: "parseInt (Some ''40'') = Integer 40" "parseInt (Some ''tall'') = NaN"
    by code_simp+
  from image_part [where e = exampleEnv and attrs = "[(''src'', ''https://example.org/x.png'')]"
      and cs = "[]" and before = "[TextNode ''a'']" and after = "[TextNode ''b'']",
      THEN conjunct1, rule_format, OF unresolved]
  have first: "parseAnyNodes exampleEnv
     ([TextNode ''a''] @ ElementNode ''IMG'' [(''src'', ''https://example.org/x.png'')] []
        # [TextNode ''b'']) =
     [TextPart ''a'', TextPart ''b'']"
    by (simp add: texts parseAnyNodes_Nil)
  from image_part [where e = exampleEnv and attrs = "[(''alt'', ''cat'')]" and cs = "[]",
      THEN conjunct2, THEN conjunct1, rule_format, OF absent, THEN conjunct1]
  have second: "parseImage exampleEnv (ElementNode ''IMG'' [(''alt'', ''cat'')] []) = None" .
  from image_part [where e = exampleEnv
      and attrs = "[(''src'', ''mxc://example.org/abc''), (''width'', ''40''),
                    (''height'', ''tall''), (''alt'', ''cat'')]"
      and cs = "[]" and before = "[]" and after = "[]",
      THEN conjunct2, THEN conjunct2, rule_format, OF resolved]
  have third: "parseAnyNodes exampleEnv
     ([] @ ElementNode ''IMG'' [(''src'', ''mxc://example.org/abc''), (''width'', ''40''),
                                (''height'', ''tall''), (''alt'', ''cat'')] [] # []) =
     [ImagePart ''https://example.org/media/example.org/abc'' (Some (Integer 40)) None
        (Some ''cat'') None]"
    by (simp add: numbers parseAnyNodes_Nil)
  from unresolved absent resolved first second third show ?thesis
    by blast
qed

text \<open>
  C6, as first stated, has the width absent only for a missing or unparsable attribute.
  The width attribute \<open>"0"\<close> is present and \<open>parseInt\<close> reads the integer 0 from it,
  yet the image part of a resolved image has no width: \<open>parseInt(...) || null\<close> takes
  the default for every falsy number.
\<close>

theorem image_width_zero:
  "map_of [(''src'', ''mxc://example.org/abc''), (''width'', ''0''), (''height'', ''20'')] ''width'' =
     Some ''0'' \<and>
   parseInt (Some ''0'') = Integer 0 \<and>
   parseAnyNodes exampleEnv
     [ElementNode ''IMG''
        [(''src'', ''mxc://example.org/abc''), (''width'', ''0''), (''height'', ''20'')] []] =
     [ImagePart ''https://example.org/media/example.org/abc'' None (Some (Integer 20)) None None]"
  by code_simp

text \<open>
  C7. For an \<open>A\<close> element the children are classified in inline context. When the
  \<open>href\<close> attribute is present and not empty and the recognizer finds a user identifier
  in it (an object whose \<open>userId\<close> is a non-empty string), the part is a pill with that
  identifier, the href and the children; in every other case it is a link with the href
  attribute, as read, and the children. That part is what the element gives in inline
  and in mixed context.
\<close>

theorem anchor_is_pill_or_link:
  "(\<forall>href uid.
      map_of attrs ''href'' = Some href \<and> href \<noteq> [] \<and>
      parsePillLink e href = Some (PillData (Some uid)) \<and> uid \<noteq> [] \<longrightarrow>
      parseInlineNode e (ElementNode ''A'' attrs cs) =
        Some (PillPart uid href (parseInlineNodes e cs))) \<and>
   ((\<nexists>href uid.
      map_of attrs ''href'' = Some href \<and> href \<noteq> [] \<and>
      parsePillLink e href = Some (PillData (Some uid)) \<and> uid \<noteq> []) \<longrightarrow>
      parseInlineNode e (ElementNode ''A'' attrs cs) =
        Some (LinkPart (map_of attrs ''href'') (parseInlineNodes e cs))) \<and>
   (\<exists>part.
      parseInlineNode e (ElementNode ''A'' attrs cs) = Some part \<and>
      parseInlineNodes e (before @ ElementNode ''A'' attrs cs # after) =
        parseInlineNodes e before @ [part] @ parseInlineNodes e after \<and>
      parseAnyNodes e (before @ ElementNode ''A'' attrs cs # after) =
        parseAnyNodes e before @ [part] @ parseAnyNodes e after)"
proof (intro conjI allI impI)
  fix href uid
  assume "map_of attrs ''href'' = Some href \<and> href \<noteq> [] \<and>
      parsePillLink e href = Some (PillData (Some uid)) \<and> uid \<noteq> []"
  then show "parseInlineNode e (ElementNode ''A'' attrs cs) =
        Some (PillPart uid href (parseInlineNodes e cs))"
    by (simp add: anchor_inline parseLink_pill)
next
  assume none: "\<nexists>href uid.
      map_of attrs ''href'' = Some href \<and> href \<noteq> [] \<and>
      parsePillLink e href = Some (PillData (Some uid)) \<and> uid \<noteq> []"
  show "parseInlineNode e (ElementNode ''A'' attrs cs) =
        Some (LinkPart (map_of attrs ''href'') (parseInlineNodes e cs))"
    by (simp only: anchor_inline parseLink_link [OF none])
next
  show "\<exists>part.
      parseInlineNode e (ElementNode ''A'' attrs cs) = Some part \<and>
      parseInlineNodes e (before @ ElementNode ''A'' attrs cs # after) =
        parseInlineNodes e before @ [part] @ parseInlineNodes e after \<and>
      parseAnyNodes e (before @ ElementNode ''A'' attrs cs # after) =
        parseAnyNodes e before @ [part] @ parseAnyNodes e after"
    using inline_part_emitted [OF anchor_inline] anchor_inline by blast
qed

theorem anchor_is_pill_or_link_witness:
  "map_of [(''href'', ''https://matrix.to/#/@alice:example.org'')] ''href'' =
     Some ''https://matrix.to/#/@alice:example.org'' \<and>
   ''https://matrix.to/#/@alice:example.org'' \<noteq> [] \<and>
   parsePillLink exampleEnv ''https://matrix.to/#/@alice:example.org'' =
     Some (PillData (Some ''@alice:example.org'')) \<and>
   ''@alice:example.org'' \<noteq> [] \<and>
   parseInlineNode exampleEnv
     (ElementNode ''A'' [(''href'', ''https://matrix.to/#/@alice:example.org'')]
        [TextNode ''Alice'']) =
     Some (PillPart ''@alice:example.org'' ''https://matrix.to/#/@alice:example.org''
             [TextPart ''Alice'']) \<and>
   (\<nexists>href uid.
      map_of [(''href'', ''https://example.org/'')] ''href'' = Some href \<and> href \<noteq> [] \<and>
      parsePillLink exampleEnv href = Some (PillData (Some uid)) \<and> uid \<noteq> []) \<and>
   parseInlineNode exampleEnv
     (ElementNode ''A'' [(''href'', ''https://example.org/'')] [TextNode ''site'']) =
     Some (LinkPart (Some ''https://example.org/'') [TextPart ''site''])"
proof -
  have pill: "map_of [(''href'', ''https://matrix.to/#/@alice:example.org'')] ''href'' =
       Some ''https://matrix.to/#/@alice:example.org'' \<and>
     ''https://matrix.to/#/@alice:example.org'' \<noteq> [] \<and>
     parsePillLink exampleEnv ''https://matrix.to/#/@alice:example.org'' =
       Some (PillData (Some ''@alice:example.org'')) \<and>
     ''@alice:example.org'' \<noteq> []"
    by (simp add: exampleEnv_def startsWith_def substring_def)
  have link: "\<nexists>href uid.
      map_of [(''href'', ''https://example.org/'')] ''href'' = Some href \<and> href \<noteq> [] \<and>
      parsePillLink exampleEnv href = Some (PillData (Some uid)) \<and> uid \<noteq> []"
    by (simp add: exampleEnv_def startsWith_def)
  have kids: "parseInlineNodes exampleEnv [TextNode ''Alice''] = [TextPart ''Alice'']"
    "parseInlineNodes exampleEnv [TextNode ''site''] = [TextPart ''site'']"
    by code_simp+
  from anchor_is_pill_or_link
      [where attrs = "[(''href'', ''https://matrix.to/#/@alice:example.org'')]"
        and e = exampleEnv and cs = "[TextNode ''Alice'']", THEN conjunct1, rule_format, OF pill]
  have first: "parseInlineNode exampleEnv
     (ElementNode ''A'' [(''href'', ''https://matrix.to/#/@alice:example.org'')]
        [TextNode ''Alice'']) =
     Some (PillPart ''@alice:example.org'' ''https://matrix.to/#/@alice:example.org''
             [TextPart ''Alice''])"
    by (simp add: kids)
  from anchor_is_pill_or_link
      [where attrs = "[(''href'', ''https://example.org/'')]"
        and e = exampleEnv and cs = "[TextNode ''site'']", THEN conjunct2, THEN conjunct1,
        rule_format, OF link]
  have second: "parseInlineNode exampleEnv
     (ElementNode ''A'' [(''href'', ''https://example.org/'')] [TextNode ''site'']) =
     Some (LinkPart (Some ''https://example.org/'') [TextPart ''site''])"
    by (simp add: kids)
  from pill link first second show ?thesis by blast
qed

text \<open>
  C8. The items of a list block are, in document order, one item for each direct child
  of the list element that is an \<open>LI\<close> element; every other child is left out; an item
  is the children of its \<open>LI\<close> element classified in mixed context. This is what
  \<open>parseList\<close> returns and what a \<open>UL\<close> or an \<open>OL\<close> element gives in mixed context.
\<close>

theorem list_items_are_li_children:
  "parseList e node =
     ListBlock (parseList_start node)
       (map (\<lambda>item. parseAnyNodes e (getChildNodes item))
          (filter (\<lambda>child. getNodeElementName child = Some ''LI'') (getChildNodes node))) \<and>
   parseAnyNodes e [ElementNode ''UL'' attrs cs] =
     [ListBlock None
        (map (\<lambda>item. parseAnyNodes e (getChildNodes item))
           (filter (\<lambda>child. getNodeElementName child = Some ''LI'') cs))] \<and>
   parseAnyNodes e [ElementNode ''OL'' attrs cs] =
     [ListBlock (parseList_start (ElementNode ''OL'' attrs cs))
        (map (\<lambda>item. parseAnyNodes e (getChildNodes item))
           (filter (\<lambda>child. getNodeElementName child = Some ''LI'') cs))]"
proof (intro conjI)
  show "parseList e node =
     ListBlock (parseList_start node)
       (map (\<lambda>item. parseAnyNodes e (getChildNodes item))
          (filter (\<lambda>child. getNodeElementName child = Some ''LI'') (getChildNodes node)))"
    by (rule parseList_eq)
  show "parseAnyNodes e [ElementNode ''UL'' attrs cs] =
     [ListBlock None
        (map (\<lambda>item. parseAnyNodes e (getChildNodes item))
           (filter (\<lambda>child. getNodeElementName child = Some ''LI'') cs))]"
    by (simp add: parseAnyNodes_Cons parseAnyNodes_Nil list_not_inline parseBlockNode_Element
        headerTags_def orElse_def parseList_eq parseList_start_def)
  show "parseAnyNodes e [ElementNode ''OL'' attrs cs] =
     [ListBlock (parseList_start (ElementNode ''OL'' attrs cs))
        (map (\<lambda>item. parseAnyNodes e (getChildNodes item))
           (filter (\<lambda>child. getNodeElementName child = Some ''LI'') cs))]"
    by (simp add: parseAnyNodes_Cons parseAnyNodes_Nil list_not_inline parseBlockNode_Element
        headerTags_def orElse_def parseList_eq)
qed

text \<open>
  C9. A \<open>P\<close> element in block context gives a Format part whose tag is the lower-case
  \<open>"p"\<close> and whose children are the element's children classified in inline context.
\<close>

theorem paragraph_is_Format_p:
  "parseBlockNode e (ElementNode ''P'' attrs cs) = Some (Format ''p'' (parseInlineNodes e cs)) \<and>
   parseAnyNodes e (before @ ElementNode ''P'' attrs cs # after) =
     parseAnyNodes e before @ [Format ''p'' (parseInlineNodes e cs)] @ parseAnyNodes e after"
  by (simp add: parseAnyNodes_Element P_not_inline parseBlockNode_Element headerTags_def
      FormatPart_def toLowerCase_P orElse_def)

text \<open>
  C10. An \<open>A\<close> element whose \<open>href\<close> attribute is absent or empty gives a link part
  that carries the attribute as read and the children classified in inline context. The
  recognizer has no part in it: \<open>parseLink\<close> gives that link part whatever function
  stands for the recognizer.
\<close>

theorem anchor_without_href_is_link:
  "map_of attrs ''href'' = None \<or> map_of attrs ''href'' = Some [] \<Longrightarrow>
     parseLink (e\<lparr>parsePillLink := recognizer\<rparr>) (ElementNode ''A'' attrs cs) children =
       LinkPart (map_of attrs ''href'') children \<and>
     parseInlineNode e (ElementNode ''A'' attrs cs) =
       Some (LinkPart (map_of attrs ''href'') (parseInlineNodes e cs)) \<and>
     parseInlineNodes e (before @ ElementNode ''A'' attrs cs # after) =
       parseInlineNodes e before @ [LinkPart (map_of attrs ''href'') (parseInlineNodes e cs)]
       @ parseInlineNodes e after \<and>
     parseAnyNodes e (before @ ElementNode ''A'' attrs cs # after) =
       parseAnyNodes e before @ [LinkPart (map_of attrs ''href'') (parseInlineNodes e cs)]
       @ parseAnyNodes e after"
proof -
  assume href: "map_of attrs ''href'' = None \<or> map_of attrs ''href'' = Some []"
  then have link: "parseLink e' (ElementNode ''A'' attrs cs) ps = LinkPart (map_of attrs ''href'') ps"
    for e' ps
    by (auto simp add: parseLink_def)
  then have node: "parseInlineNode e (ElementNode ''A'' attrs cs) =
       Some (LinkPart (map_of attrs ''href'') (parseInlineNodes e cs))"
    by (simp add: anchor_inline)
  from link node inline_part_emitted [OF node] show ?thesis
    by simp
qed

theorem anchor_without_href_is_link_witness:
  "(map_of ([] :: (string \<times> string) list) ''href'' = None \<or>
    map_of ([] :: (string \<times> string) list) ''href'' = Some []) \<and>
   parseInlineNode exampleEnv (ElementNode ''A'' [] [TextNode ''here'']) =
     Some (LinkPart None [TextPart ''here'']) \<and>
   (map_of [(''href'', [])] ''href'' = None \<or> map_of [(''href'', [])] ''href'' = Some []) \<and>
   parseInlineNode exampleEnv (ElementNode ''A'' [(''href'', [])] [TextNode ''here'']) =
     Some (LinkPart (Some []) [TextPart ''here''])"
proof -
  have absent: "map_of ([] :: (string \<times> string) list) ''href'' = None \<or>
    map_of ([] :: (string \<times> string) list) ''href'' = Some []"
    by simp
  have empty: "map_of [(''href'', [])] ''href'' = None \<or>
    map_of [(''href'', [])] ''href'' = Some []"
    by simp
  have kids: "parseInlineNodes exampleEnv [TextNode ''here''] = [TextPart ''here'']"
    by code_simp
  from anchor_without_href_is_link [OF absent, where e = exampleEnv and cs = "[TextNode ''here'']"]
    anchor_without_href_is_link [OF empty, where e = exampleEnv and cs = "[TextNode ''here'']"]
    absent empty kids
  show ?thesis by simp
qed

end
